theory Spec2Isabelle
  imports Complex_Main "HOL-Library.Multiset"
begin

section \<open>JavaScript values\<close>

text \<open>
  A JavaScript number is a double: \<open>NaN\<close>, one of the two infinities, or a finite value,
  held as the real it stands for. Comparisons are the IEEE ones (every comparison with
  \<open>NaN\<close> is false). Every operation that computes a number rounds the exact result to
  the nearest double, \<open>to_double\<close> below; the sign of zero is not part of the model.
\<close>

datatype jsnum = NaN | PosInf | NegInf | Fin real

fun isNaN :: "jsnum \<Rightarrow> bool" where
  "isNaN NaN = True"
| "isNaN _ = False"

fun isFinite :: "jsnum \<Rightarrow> bool" where
  "isFinite (Fin _) = True"
| "isFinite _ = False"

text \<open>\<open>a < b\<close> and \<open>a <= b\<close> on numbers; \<open>a > b\<close> is \<open>js_lt b a\<close>, \<open>a >= b\<close> is \<open>js_le b a\<close>.\<close>

fun js_lt :: "jsnum \<Rightarrow> jsnum \<Rightarrow> bool" where
  "js_lt (Fin a) (Fin b) = (a < b)"
| "js_lt (Fin _) PosInf = True"
| "js_lt NegInf (Fin _) = True"
| "js_lt NegInf PosInf = True"
| "js_lt _ _ = False"

fun js_le :: "jsnum \<Rightarrow> jsnum \<Rightarrow> bool" where
  "js_le (Fin a) (Fin b) = (a \<le> b)"
| "js_le (Fin _) PosInf = True"
| "js_le NegInf (Fin _) = True"
| "js_le NegInf PosInf = True"
| "js_le NegInf NegInf = True"
| "js_le PosInf PosInf = True"
| "js_le _ _ = False"

definition js_gt :: "jsnum \<Rightarrow> jsnum \<Rightarrow> bool" where
  "js_gt a b = js_lt b a"

definition js_ge :: "jsnum \<Rightarrow> jsnum \<Rightarrow> bool" where
  "js_ge a b = js_le b a"

subsection \<open>Rounding to a double\<close>

text \<open>
  The integer nearest to \<open>q\<close>; of two equally near ones the even one.
\<close>

definition round_even :: "real \<Rightarrow> int" where
  "round_even q =
     (let f = \<lfloor>q\<rfloor>; d = q - of_int f
      in if d < 1 / 2 then f else if 1 / 2 < d then f + 1 else if even f then f else f + 1)"

text \<open>
  The binary exponent of a magnitude \<open>a\<close>: the greatest \<open>e\<close> from -1022 to 1025 with
  \<open>2^e <= a\<close>, found by bisection in eleven steps, and -1022 for the subnormal
  magnitudes below \<open>2^-1022\<close>.
\<close>

fun search_exponent :: "nat \<Rightarrow> int \<Rightarrow> real \<Rightarrow> int" where
  "search_exponent 0 e a = e"
| "search_exponent (Suc k) e a =
     (if 2 powi (e + 2 ^ k) \<le> a then search_exponent k (e + 2 ^ k) a
      else search_exponent k e a)"

definition double_exponent :: "real \<Rightarrow> int" where
  "double_exponent a = search_exponent 11 (- 1022) a"

text \<open>
  A double of exponent \<open>e\<close> is a multiple of \<open>2^(e - 52)\<close>: a magnitude is rounded to the
  nearest such multiple, ties to the even one. A result of \<open>2^1024\<close> or more is beyond
  the greatest double and becomes an infinity.
\<close>

definition double_round :: "real \<Rightarrow> real" where
  "double_round a =
     (let u = 2 powi (double_exponent a - 52) in of_int (round_even (a / u)) * u)"

definition to_double :: "real \<Rightarrow> jsnum" where
  "to_double x =
     (let r = double_round \<bar>x\<bar>
      in if 2 powi 1024 \<le> r then (if x < 0 then NegInf else PosInf)
         else Fin (if x < 0 then - r else r))"

subsection \<open>Arithmetic\<close>

fun js_add :: "jsnum \<Rightarrow> jsnum \<Rightarrow> jsnum" where
  "js_add (Fin a) (Fin b) = to_double (a + b)"
| "js_add NaN _ = NaN"
| "js_add _ NaN = NaN"
| "js_add PosInf NegInf = NaN"
| "js_add NegInf PosInf = NaN"
| "js_add PosInf _ = PosInf"
| "js_add _ PosInf = PosInf"
| "js_add NegInf _ = NegInf"
| "js_add _ NegInf = NegInf"

fun js_neg :: "jsnum \<Rightarrow> jsnum" where
  "js_neg NaN = NaN"
| "js_neg PosInf = NegInf"
| "js_neg NegInf = PosInf"
| "js_neg (Fin a) = Fin (- a)"

definition js_sub :: "jsnum \<Rightarrow> jsnum \<Rightarrow> jsnum" where
  "js_sub a b = js_add a (js_neg b)"

subsection \<open>Strings\<close>

text \<open>
  A string is its sequence of UTF-16 code units; \<open>js\<close> turns a literal into one.
\<close>

type_synonym jsstring = "nat list"

definition js :: "string \<Rightarrow> jsstring" where
  "js s = map of_char s"

text \<open>The values a parameter can hold; \<open>typeof v === "number"\<close> is the case \<open>Number\<close>.\<close>

datatype jsval = Undefined | Null | Boolean bool | Number jsnum | String jsstring | Object

subsection \<open>Built-in string functions\<close>

text \<open>White space and line terminators, as \<open>trim\<close>, \<open>parseInt\<close> and \<open>parseFloat\<close> skip them.\<close>

definition isWhiteSpace :: "nat \<Rightarrow> bool" where
  "isWhiteSpace c \<longleftrightarrow>
     c \<in> {9, 10, 11, 12, 13, 32, 160, 5760, 8232, 8233, 8239, 8287, 12288, 65279}
     \<or> (8192 \<le> c \<and> c \<le> 8202)"

definition isDigit :: "nat \<Rightarrow> bool" where
  "isDigit c \<longleftrightarrow> 48 \<le> c \<and> c \<le> 57"

definition digits_value :: "jsstring \<Rightarrow> int" where
  "digits_value ds = foldl (\<lambda>n c. 10 * n + int (c - 48)) 0 ds"

definition trim :: "jsstring \<Rightarrow> jsstring" where
  "trim s = rev (dropWhile isWhiteSpace (rev (dropWhile isWhiteSpace s)))"

text \<open>\<open>s.split(sep)\<close> for a separator of one code unit: \<open>"".split("-")\<close> is \<open>[""]\<close>.\<close>

fun split_acc :: "nat \<Rightarrow> jsstring \<Rightarrow> jsstring \<Rightarrow> jsstring list" where
  "split_acc sep acc [] = [rev acc]"
| "split_acc sep acc (c # cs) =
     (if c = sep then rev acc # split_acc sep [] cs else split_acc sep (c # acc) cs)"

definition split :: "jsstring \<Rightarrow> nat \<Rightarrow> jsstring list" where
  "split s sep = split_acc sep [] s"

text \<open>An optional sign in front of a literal: whether it is negative, and the rest.\<close>

fun take_sign :: "jsstring \<Rightarrow> bool \<times> jsstring" where
  "take_sign [] = (False, [])"
| "take_sign (c # cs) =
     (if c = 45 then (True, cs) else if c = 43 then (False, cs) else (False, c # cs))"

text \<open>
  \<open>parseInt(s, 10)\<close>: leading white space is skipped, a sign is read, then the longest run
  of decimal digits; no digit gives \<open>NaN\<close>. Whatever follows the digits is ignored. The
  result is the double nearest to the integer read, an infinity when it is out of range.
\<close>

definition parseInt :: "jsstring \<Rightarrow> jsnum" where
  "parseInt s =
     (let (neg, r) = take_sign (dropWhile isWhiteSpace s);
          z = takeWhile isDigit r
      in if z = [] then NaN
         else to_double (of_int (if neg then - digits_value z else digits_value z)))"

text \<open>
  \<open>parseFloat(s)\<close>: leading white space is skipped, then the longest prefix that is a
  decimal literal is read: a sign, \<open>Infinity\<close> or digits with an optional fraction and an
  optional exponent. No such prefix gives \<open>NaN\<close>. The result is the double nearest to
  the decimal value read: an infinity when it is out of range, 0 when it is too small.
\<close>

definition exponent_part :: "jsstring \<Rightarrow> int" where
  "exponent_part r =
     (case r of
        [] \<Rightarrow> 0
      | c # cs \<Rightarrow>
          if c = 101 \<or> c = 69 then
            (let (neg, ds) = take_sign cs; z = takeWhile isDigit ds
             in if z = [] then 0 else if neg then - digits_value z else digits_value z)
          else 0)"

definition scale10 :: "real \<Rightarrow> int \<Rightarrow> real" where
  "scale10 x e = (if 0 \<le> e then x * 10 ^ nat e else x / 10 ^ nat (- e))"

definition parseFloat :: "jsstring \<Rightarrow> jsnum" where
  "parseFloat s =
     (let (neg, r) = take_sign (dropWhile isWhiteSpace s)
      in if take 8 r = js ''Infinity'' then (if neg then NegInf else PosInf)
         else
           (let ip = takeWhile isDigit r;
                r1 = dropWhile isDigit r;
                (fp, r2) = (case r1 of
                              [] \<Rightarrow> ([], [])
                            | c # cs \<Rightarrow>
                                if c = 46 then (takeWhile isDigit cs, dropWhile isDigit cs)
                                else ([], r1))
            in if ip = [] \<and> fp = [] then NaN
               else
                 (let m = scale10 (of_int (digits_value ip)
                                   + of_int (digits_value fp) / 10 ^ length fp)
                                  (exponent_part r2)
                  in to_double (if neg then - m else m))))"

section \<open>ChartManager\<close>

text \<open>
  The module's private state: \<open>chart\<close> is the data array of the Chart.js instance
  (\<open>None\<close> while the variable is \<open>null\<close>), \<open>fallback\<close> is what the fallback display
  shows (\<open>None\<close> while it was never shown).
\<close>

record chart_manager =
  chart :: "jsnum list option"
  chartJsAvailable :: bool
  fallback :: "(jsnum \<times> jsnum) option"

definition showFallback :: "jsnum \<Rightarrow> jsnum \<Rightarrow> chart_manager \<Rightarrow> chart_manager" where
  "showFallback income expenses cm = cm\<lparr>fallback := Some (income, expenses)\<rparr>"

text \<open>
  \<open>updateChart(income, expenses, savings)\<close>. The first argument says whether
  \<open>chart.update("active")\<close> throws, which the \<open>catch\<close> turns into the fallback display.
\<close>

definition updateChart ::
  "bool \<Rightarrow> jsval \<Rightarrow> jsval \<Rightarrow> jsval \<Rightarrow> chart_manager \<Rightarrow> chart_manager" where
  "updateChart update_throws income expenses savings cm =
     (let validIncome =
            (case income of
               Number n \<Rightarrow> if \<not> isNaN n \<and> js_ge n (Fin 0) then n else Fin 0
             | _ \<Rightarrow> Fin 0);
          validExpenses =
            (case expenses of
               Number n \<Rightarrow> if \<not> isNaN n \<and> js_ge n (Fin 0) then n else Fin 0
             | _ \<Rightarrow> Fin 0);
          validSavings =
            (case savings of
               Number n \<Rightarrow> if \<not> isNaN n then n else Fin 0
             | _ \<Rightarrow> Fin 0)
      in if \<not> chartJsAvailable cm \<or> chart cm = None
         then showFallback validIncome validExpenses cm
         else
           (let cm' = cm\<lparr>chart := Some [validIncome, validExpenses, validSavings]\<rparr>
            in if update_throws then showFallback validIncome validExpenses cm' else cm'))"

section \<open>DataManager\<close>

text \<open>
  Modelled from the spec: the DataManager module (\<open>js/data-manager.js\<close>) is not among the
  sources. Its state and every operation of this section follow section 4.1 of the
  specification: decimals are JavaScript numbers, a month is a pair of numbers, and the
  collection is mirrored to storage wholesale, so the in-memory state stands for both.
\<close>

record 'a transaction_fields =
  date :: jsstring
  type :: jsstring
  description :: jsstring
  amount :: 'a

record transaction = "jsnum transaction_fields" +
  id_tx :: jsstring

record month_ref =
  year :: jsnum
  month :: jsnum

record data_manager =
  transactions :: "transaction list"
  budgetLimits :: "jsnum \<times> jsnum \<rightharpoonup> jsnum"
  selectedMonth :: month_ref

datatype field_name = date_field | type_field | description_field | amount_field

datatype message =
  required | invalid_date | invalid_type | not_a_number | not_positive

record validation_error =
  field :: field_name
  message :: message

record validation =
  isValid :: bool
  errors :: "validation_error list"

datatype budget_status = Within | Over

text \<open>
  Modelled from the spec: a date is a calendar date written \<open>YYYY-MM-DD\<close>; the result
  holds its own year, month and day.
\<close>

definition days_in_month :: "int \<Rightarrow> int \<Rightarrow> int" where
  "days_in_month y m =
     (if m = 2 then (if y mod 4 = 0 \<and> (y mod 100 \<noteq> 0 \<or> y mod 400 = 0) then 29 else 28)
      else if m = 4 \<or> m = 6 \<or> m = 9 \<or> m = 11 then 30 else 31)"

definition parse_date :: "jsstring \<Rightarrow> (int \<times> int \<times> int) option" where
  "parse_date s =
     (case split s 45 of
        [ys, ms, ds] \<Rightarrow>
          if length ys = 4 \<and> length ms = 2 \<and> length ds = 2 \<and> list_all isDigit (ys @ ms @ ds)
          then
            (let y = digits_value ys; m = digits_value ms; d = digits_value ds
             in if 1 \<le> m \<and> m \<le> 12 \<and> 1 \<le> d \<and> d \<le> days_in_month y m
                then Some (y, m, d) else None)
          else None
      | _ \<Rightarrow> None)"

text \<open>
  Modelled from the spec: the four rules of \<open>validateTransaction\<close>, one per field, each
  giving at most one error record; all four are evaluated and their errors collected in
  the order date, type, description, amount. The amount is read as \<open>handleAddTransaction\<close>
  reads it, with \<open>parseFloat\<close>.
\<close>

definition validate_date :: "jsstring \<Rightarrow> validation_error list" where
  "validate_date d =
     (if d = [] then [\<lparr>field = date_field, message = required\<rparr>]
      else if parse_date d = None then [\<lparr>field = date_field, message = invalid_date\<rparr>]
      else [])"

definition validate_type :: "jsstring \<Rightarrow> validation_error list" where
  "validate_type t =
     (if t = [] then [\<lparr>field = type_field, message = required\<rparr>]
      else if t \<noteq> js ''income'' \<and> t \<noteq> js ''expense''
      then [\<lparr>field = type_field, message = invalid_type\<rparr>]
      else [])"

definition validate_description :: "jsstring \<Rightarrow> validation_error list" where
  "validate_description d =
     (if trim d = [] then [\<lparr>field = description_field, message = required\<rparr>] else [])"

definition validate_amount :: "jsstring \<Rightarrow> validation_error list" where
  "validate_amount a =
     (if a = [] then [\<lparr>field = amount_field, message = required\<rparr>]
      else if isNaN (parseFloat a) then [\<lparr>field = amount_field, message = not_a_number\<rparr>]
      else if js_le (parseFloat a) (Fin 0)
      then [\<lparr>field = amount_field, message = not_positive\<rparr>]
      else [])"

definition validateTransaction :: "jsstring transaction_fields \<Rightarrow> validation" where
  "validateTransaction input =
     (let errs = validate_date (date input) @ validate_type (type input)
                 @ validate_description (description input) @ validate_amount (amount input)
      in \<lparr>isValid = (errs = []), errors = errs\<rparr>)"

text \<open>
  Modelled from the spec: \<open>addTransaction\<close> appends the transaction under a generated id.
  The generator (the spec names a clock and a random source as an example) is outside
  the model: the id it produced is the first argument.
\<close>

definition addTransaction ::
  "jsstring \<Rightarrow> jsnum transaction_fields \<Rightarrow> data_manager \<Rightarrow> transaction \<times> data_manager" where
  "addTransaction new_id t d =
     (let stored = \<lparr>date = date t, type = type t, description = description t,
                     amount = amount t, id_tx = new_id\<rparr>
      in (stored, d\<lparr>transactions := transactions d @ [stored]\<rparr>))"

fun findIndex :: "('a \<Rightarrow> bool) \<Rightarrow> 'a list \<Rightarrow> nat option" where
  "findIndex p [] = None"
| "findIndex p (x # xs) =
     (if p x then Some 0 else map_option Suc (findIndex p xs))"

text \<open>
  Modelled from the spec: \<open>deleteTransaction\<close> removes the matching entry and returns
  true; an unknown id leaves the collection as it is and returns false.
\<close>

definition deleteTransaction :: "jsstring \<Rightarrow> data_manager \<Rightarrow> bool \<times> data_manager" where
  "deleteTransaction i d =
     (case findIndex (\<lambda>t. id_tx t = i) (transactions d) of
        None \<Rightarrow> (False, d)
      | Some k \<Rightarrow>
          (True, d\<lparr>transactions := take k (transactions d) @ drop (Suc k) (transactions d)\<rparr>))"

definition getTransactionsForMonth ::
  "data_manager \<Rightarrow> jsnum \<Rightarrow> jsnum \<Rightarrow> transaction list" where
  "getTransactionsForMonth d y m =
     filter (\<lambda>t. case parse_date (date t) of
                   None \<Rightarrow> False
                 | Some (ty, tm, td) \<Rightarrow> Fin (of_int ty) = y \<and> Fin (of_int tm) = m)
            (transactions d)"

text \<open>
  Modelled from the spec: each total adds the amounts of the entries of its type to 0,
  in the order of the list. The amounts are the doubles that \<open>handleAddTransaction\<close>
  stored, so the addition is JavaScript's.
\<close>

definition calculateTotalIncome :: "transaction list \<Rightarrow> jsnum" where
  "calculateTotalIncome list =
     foldl (\<lambda>sum t. if type t = js ''income'' then js_add sum (amount t) else sum) (Fin 0) list"

definition calculateTotalExpenses :: "transaction list \<Rightarrow> jsnum" where
  "calculateTotalExpenses list =
     foldl (\<lambda>sum t. if type t = js ''expense'' then js_add sum (amount t) else sum) (Fin 0) list"

text \<open>
  Modelled from the spec: the remaining budget is the difference of two of the spec's
  decimals, \<open>limit - totalExpenses\<close>, taken exactly.
\<close>

fun decimal_sub :: "jsnum \<Rightarrow> jsnum \<Rightarrow> jsnum" where
  "decimal_sub (Fin a) (Fin b) = Fin (a - b)"
| "decimal_sub a b = js_sub a b"

definition calculateRemainingBudget :: "jsnum \<Rightarrow> jsnum \<Rightarrow> jsnum" where
  "calculateRemainingBudget limit totalExpenses = decimal_sub limit totalExpenses"

definition getBudgetStatus :: "jsnum \<Rightarrow> jsnum \<Rightarrow> budget_status" where
  "getBudgetStatus limit totalExpenses = (if js_gt totalExpenses limit then Over else Within)"

definition getBudgetLimit :: "data_manager \<Rightarrow> jsnum \<Rightarrow> jsnum \<Rightarrow> jsnum" where
  "getBudgetLimit d y m = (case budgetLimits d (y, m) of None \<Rightarrow> Fin 0 | Some v \<Rightarrow> v)"

text \<open>
  Modelled from the spec: the setter accepts only strictly positive finite numbers and
  keeps one limit per month; \<open>setSelectedMonth\<close> validates nothing but the month's range.
\<close>

definition setBudgetLimit :: "jsnum \<Rightarrow> jsnum \<Rightarrow> jsnum \<Rightarrow> data_manager \<Rightarrow> data_manager" where
  "setBudgetLimit y m v d =
     (if isFinite v \<and> js_gt v (Fin 0) then d\<lparr>budgetLimits := (budgetLimits d)((y, m) \<mapsto> v)\<rparr>
      else d)"

definition getSelectedMonth :: "data_manager \<Rightarrow> month_ref" where
  "getSelectedMonth d = selectedMonth d"

definition setSelectedMonth :: "jsnum \<Rightarrow> jsnum \<Rightarrow> data_manager \<Rightarrow> data_manager" where
  "setSelectedMonth y m d =
     (if js_le (Fin 1) m \<and> js_le m (Fin 12) then d\<lparr>selectedMonth := \<lparr>year = y, month = m\<rparr>\<rparr>
      else d)"

section \<open>AppController\<close>

text \<open>
  The controller owns no data: a handler calls the DataManager, the UIRenderer and the
  ChartManager. The model keeps the DataManager's state and the sequence of calls made to
  the mutating operations of the DataManager and to the rendering modules, oldest first.
\<close>

record summary =
  budgetLimit :: jsnum
  totalIncome :: jsnum
  totalExpenses :: jsnum
  remainingBudget :: jsnum
  status :: budget_status

datatype call =
    PreventDefault
  | ClearValidationErrors
  | ShowValidationError field_name message
  | ClearTransactionForm
  | AddTransaction "jsnum transaction_fields"
  | DeleteTransaction jsstring
  | SetSelectedMonth jsnum jsnum
  | SetBudgetLimit jsnum jsnum jsnum
  | RenderTransactionList "transaction list"
  | RenderSummary summary
  | UpdateBudgetLimitDisplay jsnum
  | UpdateChart jsval jsval jsval

record app =
  dm :: data_manager
  calls :: "call list"

definition log :: "call list \<Rightarrow> app \<Rightarrow> app" where
  "log cs a = a\<lparr>calls := calls a @ cs\<rparr>"

definition refreshUI :: "app \<Rightarrow> app" where
  "refreshUI a =
     (let selected = getSelectedMonth (dm a);
          y = year selected;
          m = month selected;
          monthTransactions = getTransactionsForMonth (dm a) y m;
          limit = getBudgetLimit (dm a) y m;
          income = calculateTotalIncome monthTransactions;
          expenses = calculateTotalExpenses monthTransactions;
          remaining = calculateRemainingBudget limit expenses;
          st = getBudgetStatus limit expenses;
          s = \<lparr>budgetLimit = limit, totalIncome = income, totalExpenses = expenses,
               remainingBudget = remaining, status = st\<rparr>;
          savings = js_sub income expenses
      in log [RenderTransactionList monthTransactions, RenderSummary s,
              UpdateBudgetLimitDisplay limit,
              UpdateChart (Number income) (Number expenses) (Number savings)] a)"

text \<open>
  The transaction form: each input element may be missing (\<open>None\<close>), otherwise it
  holds its value.
\<close>

record form =
  dateInput :: "jsstring option"
  typeInput :: "jsstring option"
  descriptionInput :: "jsstring option"
  amountInput :: "jsstring option"

definition value_or_empty :: "jsstring option \<Rightarrow> jsstring" where
  "value_or_empty input = (case input of None \<Rightarrow> [] | Some v \<Rightarrow> v)"

definition transactionData :: "form \<Rightarrow> jsstring transaction_fields" where
  "transactionData f =
     \<lparr>date = value_or_empty (dateInput f), type = value_or_empty (typeInput f),
      description = value_or_empty (descriptionInput f),
      amount = value_or_empty (amountInput f)\<rparr>"

text \<open>
  \<open>handleAddTransaction(event)\<close>; the second argument is the id that \<open>addTransaction\<close>
  generates when it is reached.
\<close>

definition handleAddTransaction :: "form \<Rightarrow> jsstring \<Rightarrow> app \<Rightarrow> app" where
  "handleAddTransaction f new_id a =
     (let a1 = log [PreventDefault, ClearValidationErrors] a;
          dat = transactionData f;
          validation = validateTransaction dat
      in if \<not> isValid validation
         then log (map (\<lambda>error. ShowValidationError (field error) (message error))
                       (errors validation)) a1
         else
           (let transaction = \<lparr>date = date dat, type = type dat,
                               description = trim (description dat),
                               amount = parseFloat (amount dat)\<rparr>;
                a2 = log [AddTransaction transaction]
                       (a1\<lparr>dm := snd (addTransaction new_id transaction (dm a1))\<rparr>)
            in refreshUI (log [ClearTransactionForm] a2)))"

definition handleDeleteTransaction :: "jsstring \<Rightarrow> app \<Rightarrow> app" where
  "handleDeleteTransaction i a =
     (let (deleted, d) = deleteTransaction i (dm a);
          a1 = log [DeleteTransaction i] (a\<lparr>dm := d\<rparr>)
      in if deleted then refreshUI a1 else a1)"

definition handleMonthChange :: "jsnum \<Rightarrow> jsnum \<Rightarrow> app \<Rightarrow> app" where
  "handleMonthChange y m a =
     refreshUI (log [SetSelectedMonth y m] (a\<lparr>dm := setSelectedMonth y m (dm a)\<rparr>))"

definition handleBudgetLimitChange :: "jsnum \<Rightarrow> app \<Rightarrow> app" where
  "handleBudgetLimitChange limit a =
     (if isNaN limit \<or> js_le limit (Fin 0)
      then
        (let selected = getSelectedMonth (dm a);
             currentLimit = getBudgetLimit (dm a) (year selected) (month selected)
         in log [UpdateBudgetLimitDisplay currentLimit] a)
      else
        (let selected = getSelectedMonth (dm a);
             a1 = log [SetBudgetLimit (year selected) (month selected) limit]
                    (a\<lparr>dm := setBudgetLimit (year selected) (month selected) limit (dm a)\<rparr>)
         in refreshUI a1))"

subsection \<open>The listeners of \<open>setupEventListeners\<close>\<close>

text \<open>The click on the budget button and the Enter key in the budget input.\<close>

definition budget_listener :: "jsstring \<Rightarrow> app \<Rightarrow> app" where
  "budget_listener v a = handleBudgetLimitChange (parseFloat v) a"

section \<open>UIRenderer\<close>

text \<open>\<open>parseMonthValue(value)\<close> for a string argument; \<open>None\<close> is \<open>null\<close>.\<close>

definition parseMonthValue :: "jsstring \<Rightarrow> month_ref option" where
  "parseMonthValue v =
     (if v = [] then None
      else
        (let parts = split v 45
         in if length parts \<noteq> 2 then None
            else
              (let y = parseInt (parts ! 0); m = parseInt (parts ! 1)
               in if isNaN y \<or> isNaN m \<or> js_lt m (Fin 1) \<or> js_gt m (Fin 12) then None
                  else Some \<lparr>year = y, month = m\<rparr>)))"

text \<open>The change listener of the month selector.\<close>

definition month_listener :: "jsstring \<Rightarrow> app \<Rightarrow> app" where
  "month_listener v a =
     (case parseMonthValue v of
        None \<Rightarrow> a
      | Some parsed \<Rightarrow> handleMonthChange (year parsed) (month parsed) a)"

section \<open>Notions used by the properties\<close>

text \<open>The sum of a list of amounts, added up from 0 in the order of the list.\<close>

definition js_sum :: "jsnum list \<Rightarrow> jsnum" where
  "js_sum xs = foldl js_add (Fin 0) xs"

text \<open>
  The calls a handler made: those of the resulting state beyond the ones already made
  before it ran. \<open>fresh_app\<close> is the application right after start-up with nothing
  stored, showing the given month.
\<close>

definition new_calls :: "app \<Rightarrow> app \<Rightarrow> call list" where
  "new_calls before after = drop (length (calls before)) (calls after)"

definition fresh_app :: "jsnum \<Rightarrow> jsnum \<Rightarrow> app" where
  "fresh_app y m =
     \<lparr>dm = \<lparr>transactions = [], budgetLimits = Map.empty,
             selectedMonth = \<lparr>year = y, month = m\<rparr>\<rparr>,
      calls = []\<rparr>"

text \<open>
  The scenario of the specification: three transactions, two of them in January 2025,
  a budget limit for that month, and January selected.
\<close>

definition scenario :: "jsnum \<Rightarrow> data_manager" where
  "scenario limit =
     \<lparr>transactions =
        [\<lparr>date = js ''2025-01-05'', type = js ''income'', description = js ''Salary'',
          amount = Fin 1000, id_tx = js ''a''\<rparr>,
         \<lparr>date = js ''2025-01-10'', type = js ''expense'', description = js ''Rent'',
          amount = Fin 300, id_tx = js ''b''\<rparr>,
         \<lparr>date = js ''2025-02-01'', type = js ''expense'', description = js ''Food'',
          amount = Fin 50, id_tx = js ''c''\<rparr>],
      budgetLimits = [(Fin 2025, Fin 1) \<mapsto> limit],
      selectedMonth = \<lparr>year = Fin 2025, month = Fin 1\<rparr>\<rparr>"

text \<open>
  Three valid transactions whose amounts are the doubles that \<open>parseFloat\<close> gives for
  \<open>0.1\<close>, \<open>0.2\<close> and \<open>0.3\<close>.
\<close>

definition tenths :: "transaction list" where
  "tenths =
     [\<lparr>date = js ''2025-01-05'', type = js ''income'', description = js ''Tip'',
       amount = Fin (3602879701896397 / 36028797018963968), id_tx = js ''a''\<rparr>,
      \<lparr>date = js ''2025-01-10'', type = js ''expense'', description = js ''Tea'',
       amount = Fin (3602879701896397 / 18014398509481984), id_tx = js ''b''\<rparr>,
      \<lparr>date = js ''2025-01-11'', type = js ''expense'', description = js ''Bun'',
       amount = Fin (5404319552844595 / 18014398509481984), id_tx = js ''c''\<rparr>]"

section \<open>Properties\<close>

subsection \<open>Doubles\<close>

lemma round_even_of_int: "round_even (of_int m) = m"
  by (simp add: round_even_def)

lemma round_even_ge_floor: "\<lfloor>q\<rfloor> \<le> round_even q"
  by (simp add: round_even_def Let_def)

lemma search_ge: "e \<le> search_exponent k e a"
proof (induction k arbitrary: e)
  case 0
  then show ?case by simp
next
  case (Suc k)
  have "e \<le> e + 2 ^ k" by simp
  also have "\<dots> \<le> search_exponent k (e + 2 ^ k) a" by (rule Suc.IH)
  finally show ?case using Suc.IH [of e] by simp
qed

lemma search_le: "search_exponent k e a \<le> e + 2 ^ k - 1"
proof (induction k arbitrary: e)
  case 0
  then show ?case by simp
next
  case (Suc k)
  have p: "(0::int) < 2 ^ k" by simp
  show ?case
  proof (cases "2 powi (e + 2 ^ k) \<le> a")
    case True
    with Suc.IH [of "e + 2 ^ k"] show ?thesis by simp
  next
    case False
    from Suc.IH [of e] p have "search_exponent k e a \<le> e + 2 * 2 ^ k - 1" by linarith
    with False show ?thesis by simp
  qed
qed

lemma search_below: "2 powi e \<le> a \<Longrightarrow> 2 powi (search_exponent k e a) \<le> a"
  by (induction k arbitrary: e) auto

lemma search_above: "a < 2 powi (e + 2 ^ k) \<Longrightarrow> a < 2 powi (search_exponent k e a + 1)"
proof (induction k arbitrary: e)
  case 0
  then show ?case by simp
next
  case (Suc k)
  show ?case
  proof (cases "2 powi (e + 2 ^ k) \<le> a")
    case True
    from Suc.prems have "a < 2 powi (e + 2 ^ k + 2 ^ k)" by (simp add: add.assoc)
    from Suc.IH [OF this] True show ?thesis by simp
  next
    case False
    then have "a < 2 powi (e + 2 ^ k)" by simp
    from Suc.IH [OF this] False show ?thesis by simp
  qed
qed

lemma search_reaches:
  "2 powi t \<le> a \<Longrightarrow> e \<le> t \<Longrightarrow> t < e + 2 ^ k \<Longrightarrow> t \<le> search_exponent k e a"
proof (induction k arbitrary: e)
  case 0
  then show ?case by simp
next
  case (Suc k)
  show ?case
  proof (cases "2 powi (e + 2 ^ k) \<le> a")
    case True
    show ?thesis
    proof (cases "e + 2 ^ k \<le> t")
      case t: True
      from Suc.prems(3) have "t < e + 2 ^ k + 2 ^ k" by simp
      from Suc.IH [OF Suc.prems(1) t this] True show ?thesis by simp
    next
      case False
      then have "t \<le> e + 2 ^ k" by simp
      also have "\<dots> \<le> search_exponent k (e + 2 ^ k) a" by (rule search_ge)
      finally show ?thesis using True by simp
    qed
  next
    case False
    have "t < e + 2 ^ k"
    proof (rule ccontr)
      assume "\<not> t < e + 2 ^ k"
      then have "(2::real) powi (e + 2 ^ k) \<le> 2 powi t"
        by (intro power_int_increasing) simp_all
      with Suc.prems(1) False show False by simp
    qed
    from Suc.IH [OF Suc.prems(1) Suc.prems(2) this] False show ?thesis by simp
  qed
qed

lemma double_exponent_bounds: "- 1022 \<le> double_exponent a \<and> double_exponent a \<le> 1025"
  using search_ge [of "- 1022" 11 a] search_le [of 11 "- 1022" a]
  by (simp add: double_exponent_def)

lemma double_exponent_below: "2 powi (- 1022) \<le> a \<Longrightarrow> 2 powi (double_exponent a) \<le> a"
  unfolding double_exponent_def by (rule search_below)

lemma double_exponent_above: "a < 2 powi 1026 \<Longrightarrow> a < 2 powi (double_exponent a + 1)"
  unfolding double_exponent_def by (rule search_above) simp

lemma double_exponent_reaches:
  "2 powi t \<le> a \<Longrightarrow> - 1022 \<le> t \<Longrightarrow> t \<le> 1025 \<Longrightarrow> t \<le> double_exponent a"
  unfolding double_exponent_def by (rule search_reaches) simp_all

text \<open>Rounding does not fall below a power of two that the number has reached.\<close>

lemma double_round_ge:
  assumes "2 powi t \<le> a" and "- 1022 \<le> t" and "t \<le> 1025"
  shows "2 powi t \<le> double_round a"
proof -
  let ?e = "double_exponent a"
  let ?u = "(2::real) powi (?e - 52)"
  have te: "t \<le> ?e" using assms by (rule double_exponent_reaches)
  have "(2::real) powi (- 1022) \<le> 2 powi t"
    using assms(2) by (intro power_int_increasing) simp_all
  with assms(1) have "2 powi (- 1022) \<le> a" by simp
  then have ea: "2 powi ?e \<le> a" by (rule double_exponent_below)
  have u: "0 < ?u" by (simp add: zero_less_power_int)
  have eu: "(2::real) powi ?e = 2 ^ 52 * ?u"
    by (simp add: power_int_diff)
  from ea eu u have "2 ^ 52 \<le> a / ?u"
    by (simp add: pos_le_divide_eq)
  then have "(2::int) ^ 52 \<le> \<lfloor>a / ?u\<rfloor>"
    by (simp add: le_floor_iff)
  also have "\<dots> \<le> round_even (a / ?u)" by (rule round_even_ge_floor)
  finally have "(2::real) ^ 52 \<le> of_int (round_even (a / ?u))"
    by (metis of_int_le_iff of_int_numeral of_int_power)
  with u have "2 ^ 52 * ?u \<le> of_int (round_even (a / ?u)) * ?u"
    by (simp add: mult_right_mono)
  with eu have "2 powi ?e \<le> double_round a"
    by (simp add: double_round_def Let_def)
  moreover have "(2::real) powi t \<le> 2 powi ?e"
    using te by (intro power_int_increasing) simp_all
  ultimately show ?thesis by simp
qed


lemma to_double_overflow: "2 powi 1024 \<le> x \<Longrightarrow> to_double x = PosInf"
proof -
  assume x: "2 powi 1024 \<le> x"
  have "(0::real) < 2 powi 1024" by (simp add: zero_less_power_int)
  with x have p: "0 < x" by linarith
  then have a: "\<bar>x\<bar> = x" by simp
  from x have "2 powi 1024 \<le> double_round x"
    by (rule double_round_ge) simp_all
  with p a show ?thesis by (simp add: to_double_def)
qed

text \<open>Every integer up to \<open>2^53\<close> is a double.\<close>

lemma double_round_int:
  assumes "0 \<le> n" and "n \<le> 2 ^ 53"
  shows "double_round (of_int n) = of_int n"
proof (cases "n = 0")
  case True
  then show ?thesis by (simp add: double_round_def round_even_def)
next
  case False
  with assms have n1: "1 \<le> n" by simp
  define a where "a = real_of_int n"
  define e where "e = double_exponent a"
  define u where "u = (2::real) powi (e - 52)"
  have dr: "double_round a = of_int (round_even (a / u)) * u"
    by (simp add: double_round_def Let_def u_def e_def)
  from n1 have a1: "2 powi 0 \<le> a" by (simp add: a_def)
  then have e0: "0 \<le> e" unfolding e_def by (rule double_exponent_reaches) simp_all
  have "(2::real) powi (- 1022) \<le> 2 powi 0"
    by (intro power_int_increasing) simp_all
  with a1 have "2 powi (- 1022) \<le> a" by linarith
  then have ea: "2 powi e \<le> a" unfolding e_def by (rule double_exponent_below)
  from assms(2) have "real_of_int n \<le> real_of_int (2 ^ 53)" by (simp only: of_int_le_iff)
  then have a53: "a \<le> 2 powi 53" by (simp add: a_def)
  with ea have "(2::real) powi e \<le> 2 powi 53" by linarith
  then have e53: "e \<le> 53" by (rule power_int_le_imp_le_exp [rotated]) simp_all
  have "double_round a = a"
  proof (cases "e \<le> 52")
    case True
    define k where "k = nat (52 - e)"
    from True have "e - 52 = - int k" by (simp add: k_def)
    then have u: "u = 1 / 2 ^ k"
      by (simp add: u_def power_int_minus_divide)
    then have q: "a / u = of_int (n * 2 ^ k)" by (simp add: a_def)
    have "double_round a = of_int (n * 2 ^ k) * u"
      unfolding dr q round_even_of_int ..
    also have "\<dots> = a" by (simp add: u a_def)
    finally show ?thesis .
  next
    case False
    with e53 have e: "e = 53" by simp
    with ea a53 have "a = 2 powi 53" by simp
    then have av: "a = 2 ^ 53" by simp
    have u: "u = 2" by (simp add: u_def e)
    have q: "a / u = of_int (2 ^ 52)" by (simp add: av u)
    have "double_round a = of_int (2 ^ 52) * u"
      unfolding dr q round_even_of_int ..
    also have "\<dots> = a" by (simp add: u av)
    finally show ?thesis .
  qed
  then show ?thesis by (simp add: a_def)
qed

lemma to_double_int: "\<bar>n\<bar> \<le> 2 ^ 53 \<Longrightarrow> to_double (of_int n) = Fin (of_int n)"
proof -
  assume b: "\<bar>n\<bar> \<le> 2 ^ 53"
  have r: "double_round \<bar>real_of_int n\<bar> = \<bar>real_of_int n\<bar>"
    using double_round_int [of "\<bar>n\<bar>"] b by simp
  from b have "real_of_int \<bar>n\<bar> \<le> real_of_int (2 ^ 53)" by (simp only: of_int_le_iff)
  then have "\<bar>real_of_int n\<bar> \<le> 2 ^ 53" by simp
  also have "(2::real) ^ 53 < 2 powi 1024" by simp
  finally have "\<not> 2 powi 1024 \<le> \<bar>real_of_int n\<bar>" by simp
  then show ?thesis
    unfolding to_double_def r Let_def by (simp add: abs_if)
qed

lemma to_double_numeral [simp]:
  "numeral k \<le> (9007199254740992::int) \<Longrightarrow> to_double (numeral k) = Fin (numeral k)"
  "numeral k \<le> (9007199254740992::int) \<Longrightarrow> to_double (- numeral k) = Fin (- numeral k)"
  "to_double 0 = Fin 0" "to_double 1 = Fin 1"
  using to_double_int [of "numeral k"] to_double_int [of "- numeral k"]
    to_double_int [of 0] to_double_int [of 1]
  by simp_all

lemma to_double_eval:
  assumes "0 \<le> x" and "double_exponent x = e" and "x / 2 powi (e - 52) = q"
    and "round_even q = m" and "of_int m * 2 powi (e - 52) = r" and "r < 2 powi 1024"
  shows "to_double x = Fin r"
  using assms by (simp add: to_double_def double_round_def Let_def)

lemmas double_eval = double_exponent_def eval_nat_numeral round_even_def Let_def
  power_int_minus_divide

text \<open>
  The double of an integer is that integer when its magnitude is at most \<open>2^53\<close>;
  otherwise it is an infinity or an integer of at least that magnitude.
\<close>

lemma to_double_of_int_cases:
  "to_double (of_int n) = PosInf \<or> to_double (of_int n) = NegInf
   \<or> (\<exists>k. to_double (of_int n) = Fin (of_int k)
          \<and> (\<bar>n\<bar> \<le> 2 ^ 53 \<longrightarrow> k = n) \<and> (2 ^ 53 < \<bar>n\<bar> \<longrightarrow> 2 ^ 53 \<le> \<bar>k\<bar>))"
proof (cases "\<bar>n\<bar> \<le> 2 ^ 53")
  case True
  then show ?thesis using to_double_int [of n] by simp
next
  case False
  define a where "a = \<bar>real_of_int n\<bar>"
  define e where "e = double_exponent a"
  define m where "m = round_even (a / 2 powi (e - 52))"
  from False have "2 ^ 53 \<le> \<bar>n\<bar>" by simp
  then have "real_of_int (2 ^ 53) \<le> real_of_int \<bar>n\<bar>" by (simp only: of_int_le_iff)
  then have a53: "2 powi 53 \<le> a" by (simp add: a_def)
  then have e53: "53 \<le> e" unfolding e_def by (rule double_exponent_reaches) simp_all
  define k where "k = nat (e - 52)"
  from e53 have "e - 52 = int k" by (simp add: k_def)
  then have u: "(2::real) powi (e - 52) = of_int (2 ^ k)"
    by (simp add: power_int_of_nat)
  have "double_round a = of_int m * 2 powi (e - 52)"
    by (simp add: double_round_def Let_def e_def m_def)
  then have dr: "double_round a = of_int (m * 2 ^ k)"
    unfolding u by simp
  from a53 have "2 powi 53 \<le> double_round a"
    by (rule double_round_ge) simp_all
  then have "real_of_int (2 ^ 53) \<le> real_of_int (m * 2 ^ k)"
    by (simp add: dr)
  then have big: "2 ^ 53 \<le> m * 2 ^ k" by (simp only: of_int_le_iff)
  show ?thesis
  proof (cases "2 powi 1024 \<le> double_round a")
    case True
    then show ?thesis by (simp add: to_double_def a_def [symmetric])
  next
    case False
    then have "to_double (of_int n) = Fin (of_int (if n < 0 then - (m * 2 ^ k) else m * 2 ^ k))"
      by (simp add: to_double_def a_def [symmetric] dr)
    moreover have "2 ^ 53 \<le> \<bar>if n < 0 then - (m * 2 ^ k) else m * 2 ^ k\<bar>"
      using big by simp
    ultimately show ?thesis using \<open>\<not> \<bar>n\<bar> \<le> 2 ^ 53\<close> by blast
  qed
qed

text \<open>Beyond \<open>2^53\<close> not every integer is a double, and tiny values round to 0.\<close>

lemma to_double_odd: "to_double 9007199254740993 = Fin 9007199254740992"
  by (rule to_double_eval [where e = 53 and q = "9007199254740993 / 2"
        and m = 4503599627370496]) (simp_all add: double_eval)

lemma to_double_tiny: "to_double (1 / 10 ^ 400) = Fin 0"
  by (rule to_double_eval [where e = "- 1022" and q = "2 ^ 1074 / 10 ^ 400" and m = 0])
    (simp_all add: double_eval)

lemma to_double_tenth: "to_double (1 / 10) = Fin (3602879701896397 / 36028797018963968)"
  by (rule to_double_eval [where e = "- 4" and q = "36028797018963968 / 5"
        and m = 7205759403792794]) (simp_all add: double_eval)

lemma to_double_fifth: "to_double (1 / 5) = Fin (3602879701896397 / 18014398509481984)"
  by (rule to_double_eval [where e = "- 3" and q = "36028797018963968 / 5"
        and m = 7205759403792794]) (simp_all add: double_eval)

lemma to_double_three_tenths:
  "to_double (3 / 10) = Fin (5404319552844595 / 18014398509481984)"
  by (rule to_double_eval [where e = "- 2" and q = "27021597764222976 / 5"
        and m = 5404319552844595]) (simp_all add: double_eval)

subsection \<open>Parsing numbers\<close>

lemma parseInt_cases:
  "parseInt s = NaN \<or> parseInt s = PosInf \<or> parseInt s = NegInf
   \<or> (\<exists>k. parseInt s = Fin (of_int k))"
proof -
  obtain neg r where t: "take_sign (dropWhile isWhiteSpace s) = (neg, r)"
    by (cases "take_sign (dropWhile isWhiteSpace s)")
  show ?thesis
  proof (cases "takeWhile isDigit r = []")
    case True
    with t show ?thesis by (simp add: parseInt_def)
  next
    case False
    define n where "n = (if neg then - digits_value (takeWhile isDigit r)
                         else digits_value (takeWhile isDigit r))"
    from False t have "parseInt s = to_double (of_int n)"
      by (simp add: parseInt_def n_def)
    with to_double_of_int_cases [of n] show ?thesis by auto
  qed
qed

text \<open>A part that \<open>parseInt\<close> reads as a number from 1 to 12 is read as an integer.\<close>

lemma parseInt_in_range:
  assumes "\<not> isNaN (parseInt s)" and "\<not> js_lt (parseInt s) (Fin 1)"
    and "\<not> js_gt (parseInt s) (Fin 12)"
  shows "\<exists>k. parseInt s = Fin (of_int k) \<and> 1 \<le> k \<and> k \<le> 12"
proof -
  from parseInt_cases [of s] assms obtain k where k: "parseInt s = Fin (of_int k)"
    by (auto simp: js_gt_def)
  with assms(2,3) have "1 \<le> k \<and> k \<le> 12"
    by (simp add: js_gt_def)
  with k show ?thesis by blast
qed

text \<open>
  \<open>parseInt\<close> rounds an integer beyond \<open>2^53\<close>; \<open>parseFloat\<close> overflows to
  \<open>Infinity\<close>, underflows to 0 and reads \<open>0.1\<close>, \<open>0.2\<close> and \<open>0.3\<close> as the nearest doubles.
\<close>

lemma parseInt_rounds: "parseInt (js ''9007199254740993'') = Fin 9007199254740992"
  by (simp add: parseInt_def js_def isWhiteSpace_def isDigit_def digits_value_def to_double_odd)

lemma parseFloat_overflow: "parseFloat (js ''1e400'') = PosInf"
proof -
  have "parseFloat (js ''1e400'') = to_double (scale10 1 400)"
    by (simp add: parseFloat_def js_def isWhiteSpace_def isDigit_def digits_value_def
        exponent_part_def Let_def)
  also have "scale10 1 400 = 10 ^ 400" by (simp add: scale10_def)
  also have "to_double (10 ^ 400) = PosInf" by (rule to_double_overflow) simp
  finally show ?thesis .
qed

lemma parseFloat_underflow: "parseFloat (js ''1e-400'') = Fin 0"
proof -
  have "parseFloat (js ''1e-400'') = to_double (scale10 1 (- 400))"
    by (simp add: parseFloat_def js_def isWhiteSpace_def isDigit_def digits_value_def
        exponent_part_def Let_def)
  also have "scale10 1 (- 400) = 1 / 10 ^ 400" by (simp add: scale10_def)
  finally show ?thesis by (simp only: to_double_tiny)
qed

lemma parseFloat_tenth:
  "parseFloat (js ''0.1'') = Fin (3602879701896397 / 36028797018963968)"
proof -
  have "parseFloat (js ''0.1'') = to_double (scale10 (1 / 10) 0)"
    by (simp add: parseFloat_def js_def isWhiteSpace_def isDigit_def digits_value_def
        exponent_part_def Let_def)
  also have "scale10 (1 / 10) 0 = 1 / 10" by (simp add: scale10_def)
  finally show ?thesis by (simp only: to_double_tenth)
qed

lemma parseFloat_fifth:
  "parseFloat (js ''0.2'') = Fin (3602879701896397 / 18014398509481984)"
proof -
  have "parseFloat (js ''0.2'') = to_double (scale10 (1 / 5) 0)"
    by (simp add: parseFloat_def js_def isWhiteSpace_def isDigit_def digits_value_def
        exponent_part_def Let_def)
  also have "scale10 (1 / 5) 0 = 1 / 5" by (simp add: scale10_def)
  finally show ?thesis by (simp only: to_double_fifth)
qed

lemma parseFloat_three_tenths:
  "parseFloat (js ''0.3'') = Fin (5404319552844595 / 18014398509481984)"
proof -
  have "parseFloat (js ''0.3'') = to_double (scale10 (3 / 10) 0)"
    by (simp add: parseFloat_def js_def isWhiteSpace_def isDigit_def digits_value_def
        exponent_part_def Let_def)
  also have "scale10 (3 / 10) 0 = 3 / 10" by (simp add: scale10_def)
  finally show ?thesis by (simp only: to_double_three_tenths)
qed

subsection \<open>Numbers and lists\<close>

lemma js_ge_not_lt: "\<not> isNaN n \<Longrightarrow> js_ge n (Fin 0) \<longleftrightarrow> \<not> js_lt n (Fin 0)"
  by (cases n) (auto simp: js_ge_def)

lemma js_positive: "\<not> isNaN v \<Longrightarrow> \<not> js_le v (Fin 0) \<Longrightarrow> (\<exists>r>0. v = Fin r) \<or> v = PosInf"
  by (cases v) auto

lemma js_income_expense: "js ''income'' \<noteq> js ''expense''"
  by (simp add: js_def)

lemma length_two: "length xs = 2 \<longleftrightarrow> (\<exists>a b. xs = [a, b])"
  by (cases xs; cases "tl xs") auto

lemma findIndex_None: "findIndex p xs = None \<longleftrightarrow> (\<forall>x\<in>set xs. \<not> p x)"
  by (induction xs) auto

lemma findIndex_Some:
  "findIndex p xs = Some k \<Longrightarrow> k < length xs \<and> p (xs ! k) \<and> (\<forall>x\<in>set (take k xs). \<not> p x)"
proof (induction xs arbitrary: k)
  case Nil
  then show ?case by simp
next
  case (Cons x xs)
  show ?case
  proof (cases "p x")
    case True
    with Cons.prems show ?thesis by simp
  next
    case False
    with Cons.prems obtain j where j: "findIndex p xs = Some j" "k = Suc j" by auto
    from Cons.IH [OF j(1)] False j(2) show ?thesis by simp
  qed
qed

lemma mset_remove_nth:
  "k < length xs \<Longrightarrow> mset xs = add_mset (xs ! k) (mset (take k xs @ drop (Suc k) xs))"
proof -
  assume "k < length xs"
  then have "xs = take k xs @ xs ! k # drop (Suc k) xs"
    by (simp add: id_take_nth_drop)
  then have "mset xs = mset (take k xs @ xs ! k # drop (Suc k) xs)" by simp
  then show ?thesis by simp
qed

lemma filter_remove_nth:
  "k < length xs \<Longrightarrow> \<not> q (xs ! k) \<Longrightarrow>
   filter q (take k xs @ drop (Suc k) xs) = filter q xs"
proof -
  assume k: "k < length xs" and n: "\<not> q (xs ! k)"
  from k have "filter q xs = filter q (take k xs @ xs ! k # drop (Suc k) xs)"
    using id_take_nth_drop [of k xs] by simp
  with n show ?thesis by simp
qed

subsection \<open>Budget status and remaining budget\<close>

text \<open>
  C3: for all decimals \<open>limit\<close> and \<open>expenses\<close>, \<open>getBudgetStatus(limit, expenses)\<close> is
  \<open>over\<close> exactly when \<open>expenses > limit\<close> and \<open>within\<close> exactly when
  \<open>expenses <= limit\<close>; on the boundary \<open>expenses = limit\<close> it is \<open>within\<close>.
\<close>

theorem getBudgetStatus_boundary:
  "(getBudgetStatus (Fin limit) (Fin expenses) = Over \<longleftrightarrow> expenses > limit)
   \<and> (getBudgetStatus (Fin limit) (Fin expenses) = Within \<longleftrightarrow> expenses \<le> limit)
   \<and> getBudgetStatus (Fin limit) (Fin limit) = Within"
  by (auto simp: getBudgetStatus_def js_gt_def)

theorem getBudgetStatus_boundary_witness:
  "getBudgetStatus (Fin 250) (Fin 300) = Over \<and> getBudgetStatus (Fin 800) (Fin 300) = Within
   \<and> getBudgetStatus (Fin 800) (Fin 800) = Within"
  using getBudgetStatus_boundary [of 250 300] getBudgetStatus_boundary [of 800 300]
    getBudgetStatus_boundary [of 800 800]
  by simp

text \<open>
  JavaScript's own subtraction gives the double nearest to the exact difference.
\<close>

lemma js_sub_rounds: "js_sub (Fin a) (Fin b) = to_double (a - b)"
  by (simp add: js_sub_def)



subsection \<open>Totals\<close>

text \<open>Each total adds up the amounts of the entries of its own type, and of no other.\<close>

lemma foldl_own_type:
  "foldl (\<lambda>sum t. if type t = k then js_add sum (amount t) else sum) a list
   = foldl js_add a (map amount (filter (\<lambda>t. type t = k) list))"
  by (induction list arbitrary: a) auto

text \<open>
  Integer amounts whose total stays within \<open>2^53\<close> are added without rounding, whatever
  the order.
\<close>

lemma js_add_int:
  "0 \<le> a \<Longrightarrow> 0 \<le> b \<Longrightarrow> a + b \<le> 2 ^ 53 \<Longrightarrow>
   js_add (Fin (of_int a)) (Fin (of_int b)) = Fin (of_int (a + b))"
  using to_double_int [of "a + b"] by simp

lemma totals_exact:
  "\<forall>t\<in>set list. type t = js ''income'' \<or> type t = js ''expense'' \<Longrightarrow>
   map amount list = map (\<lambda>k. Fin (of_int k)) ks \<Longrightarrow> \<forall>k\<in>set ks. 0 \<le> k \<Longrightarrow>
   0 \<le> a \<Longrightarrow> 0 \<le> b \<Longrightarrow> a + b + sum_list ks \<le> 2 ^ 53 \<Longrightarrow>
   \<exists>i e. 0 \<le> i \<and> 0 \<le> e \<and> i + e = a + b + sum_list ks
     \<and> foldl (\<lambda>sum t. if type t = js ''income'' then js_add sum (amount t) else sum)
          (Fin (of_int a)) list = Fin (of_int i)
     \<and> foldl (\<lambda>sum t. if type t = js ''expense'' then js_add sum (amount t) else sum)
          (Fin (of_int b)) list = Fin (of_int e)
     \<and> foldl js_add (Fin (of_int (a + b))) (map amount list) = Fin (of_int (a + b + sum_list ks))"
proof (induction list arbitrary: ks a b)
  case Nil
  then show ?case by auto
next
  case (Cons t list)
  from Cons.prems(2) obtain k ks' where ks: "ks = k # ks'" "amount t = Fin (of_int k)"
      "map amount list = map (\<lambda>k. Fin (of_int k)) ks'"
    by (cases ks) auto
  from Cons.prems(3) ks(1) have k0: "0 \<le> k" and ks0: "\<forall>k\<in>set ks'. 0 \<le> k" by simp_all
  then have s0: "0 \<le> sum_list ks'" by (simp add: sum_list_nonneg)
  from Cons.prems(1) have types: "\<forall>t\<in>set list. type t = js ''income'' \<or> type t = js ''expense''"
    by simp
  from Cons.prems(6) ks(1) have bound: "a + b + k + sum_list ks' \<le> 2 ^ 53" by simp
  have all: "js_add (Fin (of_int (a + b))) (Fin (of_int k)) = Fin (of_int (a + b + k))"
    using Cons.prems(4,5) k0 s0 bound by (intro js_add_int) simp_all
  from Cons.prems(1) consider "type t = js ''income''" | "type t = js ''expense''"
    by auto
  then show ?case
  proof cases
    case 1
    then have ne: "type t \<noteq> js ''expense''" by (simp add: js_income_expense)
    have step: "js_add (Fin (of_int a)) (Fin (of_int k)) = Fin (of_int (a + k))"
      using Cons.prems(4,5) k0 s0 bound by (intro js_add_int) simp_all
    have "0 \<le> a + k" using Cons.prems(4) k0 by simp
    moreover have "a + k + b + sum_list ks' \<le> 2 ^ 53" using bound by simp
    ultimately obtain i e where "0 \<le> i" "0 \<le> e" "i + e = a + k + b + sum_list ks'"
      "foldl (\<lambda>sum t. if type t = js ''income'' then js_add sum (amount t) else sum)
          (Fin (of_int (a + k))) list = Fin (of_int i)"
      "foldl (\<lambda>sum t. if type t = js ''expense'' then js_add sum (amount t) else sum)
          (Fin (of_int b)) list = Fin (of_int e)"
      "foldl js_add (Fin (of_int (a + k + b))) (map amount list)
        = Fin (of_int (a + k + b + sum_list ks'))"
      using Cons.IH [OF types ks(3) ks0 _ Cons.prems(5), of "a + k"] by blast
    then show ?thesis
      using 1 ne ks(1,2) step all
      by (intro exI [of _ i] exI [of _ e]) (simp add: add.commute add.left_commute)
  next
    case 2
    then have ne: "type t \<noteq> js ''income''" using js_income_expense by simp
    have step: "js_add (Fin (of_int b)) (Fin (of_int k)) = Fin (of_int (b + k))"
      using Cons.prems(4,5) k0 s0 bound by (intro js_add_int) simp_all
    have "0 \<le> b + k" using Cons.prems(5) k0 by simp
    moreover have "a + (b + k) + sum_list ks' \<le> 2 ^ 53" using bound by simp
    ultimately obtain i e where "0 \<le> i" "0 \<le> e" "i + e = a + (b + k) + sum_list ks'"
      "foldl (\<lambda>sum t. if type t = js ''income'' then js_add sum (amount t) else sum)
          (Fin (of_int a)) list = Fin (of_int i)"
      "foldl (\<lambda>sum t. if type t = js ''expense'' then js_add sum (amount t) else sum)
          (Fin (of_int (b + k))) list = Fin (of_int e)"
      "foldl js_add (Fin (of_int (a + (b + k)))) (map amount list)
        = Fin (of_int (a + (b + k) + sum_list ks'))"
      using Cons.IH [OF types ks(3) ks0 Cons.prems(4), of "b + k"] by blast
    then show ?thesis
      using 2 ne ks(1,2) step all
      by (intro exI [of _ i] exI [of _ e]) (simp add: add.assoc)
  qed
qed

text \<open>The six additions of the list \<open>tenths\<close>, each rounded to the nearest double.\<close>

lemma tenths_add_1:
  "js_add (Fin 0) (Fin (3602879701896397 / 36028797018963968))
   = Fin (3602879701896397 / 36028797018963968)"
  unfolding js_add.simps
  by (rule to_double_eval [where e = "- 4" and q = 7205759403792794 and m = 7205759403792794])
    (simp_all add: double_eval)

lemma tenths_add_2:
  "js_add (Fin 0) (Fin (3602879701896397 / 18014398509481984))
   = Fin (3602879701896397 / 18014398509481984)"
  unfolding js_add.simps
  by (rule to_double_eval [where e = "- 3" and q = 7205759403792794 and m = 7205759403792794])
    (simp_all add: double_eval)

lemma tenths_add_3:
  "js_add (Fin (3602879701896397 / 18014398509481984))
          (Fin (5404319552844595 / 18014398509481984))
   = Fin (1 / 2)"
  unfolding js_add.simps
  by (rule to_double_eval [where e = "- 1" and q = 4503599627370496 and m = 4503599627370496])
    (simp_all add: double_eval)

lemma tenths_add_4:
  "js_add (Fin (3602879701896397 / 36028797018963968)) (Fin (1 / 2))
   = Fin (5404319552844595 / 9007199254740992)"
  unfolding js_add.simps
  by (rule to_double_eval [where e = "- 1" and q = "21617278211378381 / 4"
        and m = 5404319552844595]) (simp_all add: double_eval)

lemma tenths_add_5:
  "js_add (Fin (3602879701896397 / 36028797018963968))
          (Fin (3602879701896397 / 18014398509481984))
   = Fin (1351079888211149 / 4503599627370496)"
  unfolding js_add.simps
  by (rule to_double_eval [where e = "- 2" and q = "10808639105689191 / 2"
        and m = 5404319552844596]) (simp_all add: double_eval)

lemma tenths_add_6:
  "js_add (Fin (1351079888211149 / 4503599627370496))
          (Fin (5404319552844595 / 18014398509481984))
   = Fin (1351079888211149 / 2251799813685248)"
  unfolding js_add.simps
  by (rule to_double_eval [where e = "- 1" and q = "10808639105689191 / 2"
        and m = 5404319552844596]) (simp_all add: double_eval)

text \<open>
  On the valid list of 0.1 income, 0.2 and 0.3 expense, the two totals add up to 0.6 but
  the amounts, added in the order of the list, to 0.6000000000000001.
\<close>

theorem totals_rounding_counterexample:
  "js_add (calculateTotalIncome tenths) (calculateTotalExpenses tenths)
     = Fin (5404319552844595 / 9007199254740992)
   \<and> js_sum (map amount tenths) = Fin (1351079888211149 / 2251799813685248)
   \<and> js_add (calculateTotalIncome tenths) (calculateTotalExpenses tenths)
       \<noteq> js_sum (map amount tenths)"
proof -
  have i: "calculateTotalIncome tenths = Fin (3602879701896397 / 36028797018963968)"
    by (simp add: tenths_def calculateTotalIncome_def js_def tenths_add_1 del: js_add.simps)
  have e: "calculateTotalExpenses tenths = Fin (1 / 2)"
    by (simp add: tenths_def calculateTotalExpenses_def js_def tenths_add_2 tenths_add_3
        del: js_add.simps)
  have s: "js_sum (map amount tenths) = Fin (1351079888211149 / 2251799813685248)"
    by (simp add: tenths_def js_sum_def tenths_add_1 tenths_add_5 tenths_add_6
        del: js_add.simps)
  have t: "js_add (calculateTotalIncome tenths) (calculateTotalExpenses tenths)
      = Fin (5404319552844595 / 9007199254740992)"
    unfolding i e by (rule tenths_add_4)
  show ?thesis unfolding t s by simp
qed

text \<open>
  C4 (amended): for every list of valid transactions (each of type \<open>income\<close> or \<open>expense\<close>,
  with an amount above 0), each of \<open>calculateTotalIncome\<close> and \<open>calculateTotalExpenses\<close> is
  the sum of the amounts of the entries of its own type, added from 0 in the order of
  the list, and both are 0 on the empty list. When the amounts are integers whose total
  is at most \<open>2^53\<close>, no addition rounds, and
  \<open>calculateTotalIncome(list) + calculateTotalExpenses(list)\<close> is the sum of all amounts.
\<close>

theorem totals_own_type_exact_integers:
  assumes "\<forall>t\<in>set list. (type t = js ''income'' \<or> type t = js ''expense'')
             \<and> js_gt (amount t) (Fin 0)"
  shows "calculateTotalIncome list
        = js_sum (map amount (filter (\<lambda>t. type t = js ''income'') list))
    \<and> calculateTotalExpenses list
        = js_sum (map amount (filter (\<lambda>t. type t = js ''expense'') list))
    \<and> calculateTotalIncome [] = Fin 0 \<and> calculateTotalExpenses [] = Fin 0
    \<and> (\<forall>ks. map amount list = map (\<lambda>k. Fin (of_int k)) ks \<and> sum_list ks \<le> 2 ^ 53 \<longrightarrow>
          js_add (calculateTotalIncome list) (calculateTotalExpenses list)
            = js_sum (map amount list)
          \<and> js_sum (map amount list) = Fin (of_int (sum_list ks)))"
proof (intro conjI allI impI)
  show "calculateTotalIncome list
        = js_sum (map amount (filter (\<lambda>t. type t = js ''income'') list))"
    by (simp add: calculateTotalIncome_def js_sum_def foldl_own_type)
  show "calculateTotalExpenses list
        = js_sum (map amount (filter (\<lambda>t. type t = js ''expense'') list))"
    by (simp add: calculateTotalExpenses_def js_sum_def foldl_own_type)
  show "calculateTotalIncome [] = Fin 0" by (simp add: calculateTotalIncome_def)
  show "calculateTotalExpenses [] = Fin 0" by (simp add: calculateTotalExpenses_def)
next
  fix ks
  assume h: "map amount list = map (\<lambda>k. Fin (of_int k)) ks \<and> sum_list ks \<le> 2 ^ 53"
  have pos: "\<forall>k\<in>set ks. 0 \<le> k"
  proof
    fix k assume "k \<in> set ks"
    then have "Fin (of_int k) \<in> set (map amount list)" using h by simp
    then obtain t where "t \<in> set list" "amount t = Fin (of_int k)" by auto
    with assms have "js_gt (Fin (of_int k)) (Fin 0)" by force
    then show "0 \<le> k" by (simp add: js_gt_def)
  qed
  from assms have types: "\<forall>t\<in>set list. type t = js ''income'' \<or> type t = js ''expense''"
    by simp
  from totals_exact [OF types _ pos, of 0 0] h
  obtain i e where ie: "0 \<le> i" "0 \<le> e" "i + e = sum_list ks"
      "calculateTotalIncome list = Fin (of_int i)"
      "calculateTotalExpenses list = Fin (of_int e)"
      "js_sum (map amount list) = Fin (of_int (sum_list ks))"
    by (auto simp: calculateTotalIncome_def calculateTotalExpenses_def js_sum_def)
  from ie(1-3) h have "js_add (Fin (of_int i)) (Fin (of_int e)) = Fin (of_int (i + e))"
    by (intro js_add_int) simp_all
  with ie show "js_add (calculateTotalIncome list) (calculateTotalExpenses list)
      = js_sum (map amount list)" by simp
  from ie show "js_sum (map amount list) = Fin (of_int (sum_list ks))" by simp
qed

theorem totals_own_type_exact_integers_witness:
  "js_add (calculateTotalIncome (transactions (scenario (Fin 800))))
          (calculateTotalExpenses (transactions (scenario (Fin 800)))) = Fin 1350
   \<and> calculateTotalIncome (transactions (scenario (Fin 800))) = Fin 1000
   \<and> calculateTotalExpenses (transactions (scenario (Fin 800))) = Fin 350"
  using totals_own_type_exact_integers [of "transactions (scenario (Fin 800))"]
  by (simp add: scenario_def js_gt_def js_sum_def js_def)

text \<open>
  The two scenarios of the specification, as \<open>refreshUI\<close> displays them: with a limit of
  800 the month is within budget with 500 remaining, with a limit of 250 it is over
  budget with -50 remaining.
\<close>

lemma scenario_january:
  "new_calls \<lparr>dm = scenario (Fin 800), calls = []\<rparr> (refreshUI \<lparr>dm = scenario (Fin 800), calls = []\<rparr>)
   = [RenderTransactionList (take 2 (transactions (scenario (Fin 800)))),
      RenderSummary \<lparr>budgetLimit = Fin 800, totalIncome = Fin 1000, totalExpenses = Fin 300,
                     remainingBudget = Fin 500, status = Within\<rparr>,
      UpdateBudgetLimitDisplay (Fin 800),
      UpdateChart (Number (Fin 1000)) (Number (Fin 300)) (Number (Fin 700))]"
  by (simp add: scenario_def refreshUI_def new_calls_def log_def getSelectedMonth_def
      getTransactionsForMonth_def getBudgetLimit_def calculateTotalIncome_def
      calculateTotalExpenses_def calculateRemainingBudget_def getBudgetStatus_def
      js_sub_def js_gt_def parse_date_def split_def js_def isDigit_def digits_value_def
      days_in_month_def Let_def)

lemma scenario_over:
  "new_calls \<lparr>dm = scenario (Fin 250), calls = []\<rparr> (refreshUI \<lparr>dm = scenario (Fin 250), calls = []\<rparr>)
   = [RenderTransactionList (take 2 (transactions (scenario (Fin 250)))),
      RenderSummary \<lparr>budgetLimit = Fin 250, totalIncome = Fin 1000, totalExpenses = Fin 300,
                     remainingBudget = Fin (- 50), status = Over\<rparr>,
      UpdateBudgetLimitDisplay (Fin 250),
      UpdateChart (Number (Fin 1000)) (Number (Fin 300)) (Number (Fin 700))]"
  by (simp add: scenario_def refreshUI_def new_calls_def log_def getSelectedMonth_def
      getTransactionsForMonth_def getBudgetLimit_def calculateTotalIncome_def
      calculateTotalExpenses_def calculateRemainingBudget_def getBudgetStatus_def
      js_sub_def js_gt_def parse_date_def split_def js_def isDigit_def digits_value_def
      days_in_month_def Let_def)

subsection \<open>Deleting a transaction\<close>

text \<open>
  C6: when a transaction with the id exists, \<open>deleteTransaction(id)\<close> returns true and
  removes exactly one entry, one with that id: the collection is one shorter, it is the
  old one without that entry, and every entry with another id stays where it was. When
  no transaction has the id it returns false and the state is the one before. It is a
  total function: no input makes it fail.
\<close>

theorem deleteTransaction_removes_one:
  "((\<exists>t\<in>set (transactions d). id_tx t = i) \<longrightarrow>
      fst (deleteTransaction i d)
      \<and> length (transactions (snd (deleteTransaction i d))) + 1 = length (transactions d)
      \<and> (\<exists>t. id_tx t = i
            \<and> mset (transactions d) = add_mset t (mset (transactions (snd (deleteTransaction i d)))))
      \<and> filter (\<lambda>t. id_tx t \<noteq> i) (transactions (snd (deleteTransaction i d)))
          = filter (\<lambda>t. id_tx t \<noteq> i) (transactions d)
      \<and> budgetLimits (snd (deleteTransaction i d)) = budgetLimits d
      \<and> selectedMonth (snd (deleteTransaction i d)) = selectedMonth d)
   \<and> ((\<forall>t\<in>set (transactions d). id_tx t \<noteq> i) \<longrightarrow> deleteTransaction i d = (False, d))"
proof (cases "findIndex (\<lambda>t. id_tx t = i) (transactions d)")
  case None
  then have "\<forall>t\<in>set (transactions d). id_tx t \<noteq> i"
    by (simp add: findIndex_None)
  with None show ?thesis by (simp add: deleteTransaction_def)
next
  case (Some k)
  let ?xs = "transactions d"
  from findIndex_Some [OF Some] have k: "k < length ?xs" and p: "id_tx (?xs ! k) = i"
    by simp_all
  have r: "deleteTransaction i d = (True, d\<lparr>transactions := take k ?xs @ drop (Suc k) ?xs\<rparr>)"
    using Some by (simp add: deleteTransaction_def)
  have ex: "\<exists>t\<in>set ?xs. id_tx t = i"
    using k p nth_mem by blast
  have len: "length (take k ?xs @ drop (Suc k) ?xs) + 1 = length ?xs"
    using k by simp
  have ms: "\<exists>t. id_tx t = i \<and> mset ?xs = add_mset t (mset (take k ?xs @ drop (Suc k) ?xs))"
    using mset_remove_nth [OF k] p by blast
  have fl: "filter (\<lambda>t. id_tx t \<noteq> i) (take k ?xs @ drop (Suc k) ?xs)
      = filter (\<lambda>t. id_tx t \<noteq> i) ?xs"
    using k p by (intro filter_remove_nth) simp_all
  from ex len ms fl show ?thesis
    unfolding r by simp
qed

theorem deleteTransaction_removes_one_witness:
  "deleteTransaction (js ''b'')
     \<lparr>transactions =
        [\<lparr>date = js ''2025-01-05'', type = js ''income'', description = js ''Salary'',
          amount = Fin 1000, id_tx = js ''a''\<rparr>,
         \<lparr>date = js ''2025-01-10'', type = js ''expense'', description = js ''Rent'',
          amount = Fin 300, id_tx = js ''b''\<rparr>],
      budgetLimits = Map.empty, selectedMonth = \<lparr>year = Fin 2025, month = Fin 1\<rparr>\<rparr>
   = (True,
      \<lparr>transactions =
        [\<lparr>date = js ''2025-01-05'', type = js ''income'', description = js ''Salary'',
          amount = Fin 1000, id_tx = js ''a''\<rparr>],
       budgetLimits = Map.empty, selectedMonth = \<lparr>year = Fin 2025, month = Fin 1\<rparr>\<rparr>)
   \<and> fst (deleteTransaction (js ''c'')
     \<lparr>transactions =
        [\<lparr>date = js ''2025-01-05'', type = js ''income'', description = js ''Salary'',
          amount = Fin 1000, id_tx = js ''a''\<rparr>],
      budgetLimits = Map.empty, selectedMonth = \<lparr>year = Fin 2025, month = Fin 1\<rparr>\<rparr>) = False"
  using deleteTransaction_removes_one [of "\<lparr>transactions =
        [\<lparr>date = js ''2025-01-05'', type = js ''income'', description = js ''Salary'',
          amount = Fin 1000, id_tx = js ''a''\<rparr>,
         \<lparr>date = js ''2025-01-10'', type = js ''expense'', description = js ''Rent'',
          amount = Fin 300, id_tx = js ''b''\<rparr>],
      budgetLimits = Map.empty, selectedMonth = \<lparr>year = Fin 2025, month = Fin 1\<rparr>\<rparr>" "js ''b''"]
  by (simp add: deleteTransaction_def js_def)

text \<open>The handler refreshes the display only when something was deleted.\<close>

lemma handleDeleteTransaction_unknown:
  "\<forall>t\<in>set (transactions (dm a)). id_tx t \<noteq> i \<Longrightarrow>
   dm (handleDeleteTransaction i a) = dm a
   \<and> new_calls a (handleDeleteTransaction i a) = [DeleteTransaction i]"
  by (simp add: handleDeleteTransaction_def deleteTransaction_def findIndex_None [THEN iffD2]
      log_def new_calls_def)

subsection \<open>Validation\<close>

text \<open>
  In the scenario \<open>{date: "", type: "income", description: "", amount: "-5"}\<close> the type
  is valid, so three fields are violated and three errors are reported, not four.
\<close>

theorem validateTransaction_scenario_counterexample:
  "length (errors (validateTransaction
      \<lparr>date = [], type = js ''income'', description = [], amount = js ''-5''\<rparr>)) = 3
   \<and> map field (errors (validateTransaction
      \<lparr>date = [], type = js ''income'', description = [], amount = js ''-5''\<rparr>))
     = [date_field, description_field, amount_field]"
  by (simp add: validateTransaction_def validate_date_def validate_type_def
      validate_description_def validate_amount_def trim_def parseFloat_def js_def
      isWhiteSpace_def isDigit_def digits_value_def exponent_part_def scale10_def Let_def)

text \<open>
  C1 (amended): \<open>validateTransaction\<close> checks every rule without short-circuiting and
  reports one error record per violated field: the fields of the errors are distinct,
  and each field has an error exactly when its own rule is violated, whatever the other
  fields hold; the input is valid exactly when there is no error. For the input
  \<open>{date: "", type: "income", description: "", amount: "-5"}\<close> it returns
  \<open>isValid = false\<close> with exactly three errors, for date, description and amount.
\<close>

theorem validateTransaction_all_rules:
  "distinct (map field (errors (validateTransaction input)))
   \<and> (date_field \<in> field ` set (errors (validateTransaction input))
        \<longleftrightarrow> date input = [] \<or> parse_date (date input) = None)
   \<and> (type_field \<in> field ` set (errors (validateTransaction input))
        \<longleftrightarrow> type input \<noteq> js ''income'' \<and> type input \<noteq> js ''expense'')
   \<and> (description_field \<in> field ` set (errors (validateTransaction input))
        \<longleftrightarrow> trim (description input) = [])
   \<and> (amount_field \<in> field ` set (errors (validateTransaction input))
        \<longleftrightarrow> amount input = [] \<or> isNaN (parseFloat (amount input))
            \<or> js_le (parseFloat (amount input)) (Fin 0))
   \<and> (isValid (validateTransaction input) \<longleftrightarrow> errors (validateTransaction input) = [])
   \<and> map field (errors (validateTransaction
        \<lparr>date = [], type = js ''income'', description = [], amount = js ''-5''\<rparr>))
      = [date_field, description_field, amount_field]
   \<and> \<not> isValid (validateTransaction
        \<lparr>date = [], type = js ''income'', description = [], amount = js ''-5''\<rparr>)"
proof -
  have d: "map field (validate_date x) = (if x = [] \<or> parse_date x = None then [date_field] else [])"
    for x by (simp add: validate_date_def)
  have t: "map field (validate_type x)
      = (if x \<noteq> js ''income'' \<and> x \<noteq> js ''expense'' then [type_field] else [])"
    for x by (auto simp: validate_type_def js_def)
  have s: "map field (validate_description x) = (if trim x = [] then [description_field] else [])"
    for x by (simp add: validate_description_def)
  have m: "map field (validate_amount x)
      = (if x = [] \<or> isNaN (parseFloat x) \<or> js_le (parseFloat x) (Fin 0)
         then [amount_field] else [])"
    for x by (simp add: validate_amount_def)
  have f: "map field (errors (validateTransaction input))
      = map field (validate_date (date input)) @ map field (validate_type (type input))
        @ map field (validate_description (description input))
        @ map field (validate_amount (amount input))"
    by (simp add: validateTransaction_def Let_def)
  have c1: "distinct (map field (errors (validateTransaction input)))"
    unfolding f d t s m by simp
  have im: "field ` set (errors (validateTransaction input))
      = set (map field (errors (validateTransaction input)))"
    by simp
  have c2: "date_field \<in> field ` set (errors (validateTransaction input))
        \<longleftrightarrow> date input = [] \<or> parse_date (date input) = None"
    unfolding im f d t s m by simp
  have c3: "type_field \<in> field ` set (errors (validateTransaction input))
        \<longleftrightarrow> type input \<noteq> js ''income'' \<and> type input \<noteq> js ''expense''"
    unfolding im f d t s m by simp
  have c4: "description_field \<in> field ` set (errors (validateTransaction input))
        \<longleftrightarrow> trim (description input) = []"
    unfolding im f d t s m by simp
  have c5: "amount_field \<in> field ` set (errors (validateTransaction input))
        \<longleftrightarrow> amount input = [] \<or> isNaN (parseFloat (amount input))
            \<or> js_le (parseFloat (amount input)) (Fin 0)"
    unfolding im f d t s m by simp
  have c6: "isValid (validateTransaction input) \<longleftrightarrow> errors (validateTransaction input) = []"
    by (simp add: validateTransaction_def Let_def)
  have c7: "map field (errors (validateTransaction
        \<lparr>date = [], type = js ''income'', description = [], amount = js ''-5''\<rparr>))
      = [date_field, description_field, amount_field]
   \<and> \<not> isValid (validateTransaction
        \<lparr>date = [], type = js ''income'', description = [], amount = js ''-5''\<rparr>)"
    by (simp add: validateTransaction_def validate_date_def validate_type_def
      validate_description_def validate_amount_def trim_def parseFloat_def js_def
      isWhiteSpace_def isDigit_def digits_value_def exponent_part_def scale10_def Let_def)
  from c1 c2 c3 c4 c5 c6 c7 show ?thesis by (intro conjI) simp_all
qed

theorem validateTransaction_all_rules_witness:
  "validateTransaction \<lparr>date = js ''2025-01-05'', type = js ''income'',
      description = js ''Salary'', amount = js ''1000''\<rparr> = \<lparr>isValid = True, errors = []\<rparr>
   \<and> errors (validateTransaction \<lparr>date = js ''2025-02-30'', type = js ''gift'',
      description = js '' '', amount = js ''abc''\<rparr>)
     = [\<lparr>field = date_field, message = invalid_date\<rparr>,
        \<lparr>field = type_field, message = invalid_type\<rparr>,
        \<lparr>field = description_field, message = required\<rparr>,
        \<lparr>field = amount_field, message = not_a_number\<rparr>]"
  using validateTransaction_all_rules [of "\<lparr>date = js ''2025-01-05'', type = js ''income'',
      description = js ''Salary'', amount = js ''1000''\<rparr>"]
  by (simp add: validateTransaction_def validate_date_def validate_type_def
      validate_description_def validate_amount_def trim_def parseFloat_def js_def
      isWhiteSpace_def isDigit_def digits_value_def exponent_part_def scale10_def Let_def
      parse_date_def split_def days_in_month_def)

subsection \<open>The values the chart shows\<close>

text \<open>
  An infinite income is not a finite number, and \<open>updateChart\<close> hands it to the chart as
  it is, not as 0.
\<close>

theorem updateChart_infinite_income_counterexample:
  "\<not> isFinite PosInf
   \<and> chart (updateChart False (Number PosInf) (Number (Fin 0)) (Number (Fin 0))
             \<lparr>chart = Some [Fin 0, Fin 0, Fin 0], chartJsAvailable = True, fallback = None\<rparr>)
     = Some [PosInf, Fin 0, Fin 0]"
  by (simp add: updateChart_def js_ge_def)

text \<open>
  C10 (amended): \<open>updateChart(income, expenses, savings)\<close> shows income and expenses as
  they are when they are numbers that are neither \<open>NaN\<close> nor negative (so also
  \<open>+Infinity\<close>), and as 0 otherwise; it shows savings as they are when they are a number
  other than \<open>NaN\<close> (so also a negative one), and as 0 otherwise. With a chart the three
  values become its data; without one, or when the update throws, the fallback display
  shows income and expenses.
\<close>

theorem updateChart_rendered_values:
  "\<exists>vi ve vs.
     (\<forall>n. income = Number n \<longrightarrow> \<not> isNaN n \<longrightarrow> \<not> js_lt n (Fin 0) \<longrightarrow> vi = n)
     \<and> ((\<forall>n. income = Number n \<longrightarrow> isNaN n \<or> js_lt n (Fin 0)) \<longrightarrow> vi = Fin 0)
     \<and> (\<forall>n. expenses = Number n \<longrightarrow> \<not> isNaN n \<longrightarrow> \<not> js_lt n (Fin 0) \<longrightarrow> ve = n)
     \<and> ((\<forall>n. expenses = Number n \<longrightarrow> isNaN n \<or> js_lt n (Fin 0)) \<longrightarrow> ve = Fin 0)
     \<and> (\<forall>n. savings = Number n \<longrightarrow> \<not> isNaN n \<longrightarrow> vs = n)
     \<and> ((\<forall>n. savings = Number n \<longrightarrow> isNaN n) \<longrightarrow> vs = Fin 0)
     \<and> (chartJsAvailable cm \<and> chart cm \<noteq> None \<longrightarrow>
          chart (updateChart update_throws income expenses savings cm) = Some [vi, ve, vs])
     \<and> (\<not> chartJsAvailable cm \<or> chart cm = None \<or> update_throws \<longrightarrow>
          fallback (updateChart update_throws income expenses savings cm) = Some (vi, ve))
     \<and> (\<not> chartJsAvailable cm \<or> chart cm = None \<longrightarrow>
          chart (updateChart update_throws income expenses savings cm) = chart cm)"
proof -
  define vi where "vi = (case income of
      Number n \<Rightarrow> if \<not> isNaN n \<and> js_ge n (Fin 0) then n else Fin 0 | _ \<Rightarrow> Fin 0)"
  define ve where "ve = (case expenses of
      Number n \<Rightarrow> if \<not> isNaN n \<and> js_ge n (Fin 0) then n else Fin 0 | _ \<Rightarrow> Fin 0)"
  define vs where "vs = (case savings of
      Number n \<Rightarrow> if \<not> isNaN n then n else Fin 0 | _ \<Rightarrow> Fin 0)"
  have i1: "\<forall>n. income = Number n \<longrightarrow> \<not> isNaN n \<longrightarrow> \<not> js_lt n (Fin 0) \<longrightarrow> vi = n"
    by (simp add: vi_def js_ge_not_lt)
  have i2: "(\<forall>n. income = Number n \<longrightarrow> isNaN n \<or> js_lt n (Fin 0)) \<longrightarrow> vi = Fin 0"
    by (cases income) (auto simp: vi_def js_ge_not_lt)
  have e1: "\<forall>n. expenses = Number n \<longrightarrow> \<not> isNaN n \<longrightarrow> \<not> js_lt n (Fin 0) \<longrightarrow> ve = n"
    by (simp add: ve_def js_ge_not_lt)
  have e2: "(\<forall>n. expenses = Number n \<longrightarrow> isNaN n \<or> js_lt n (Fin 0)) \<longrightarrow> ve = Fin 0"
    by (cases expenses) (auto simp: ve_def js_ge_not_lt)
  have s1: "\<forall>n. savings = Number n \<longrightarrow> \<not> isNaN n \<longrightarrow> vs = n"
    by (simp add: vs_def)
  have s2: "(\<forall>n. savings = Number n \<longrightarrow> isNaN n) \<longrightarrow> vs = Fin 0"
    by (cases savings) (auto simp: vs_def)
  have u: "updateChart update_throws income expenses savings cm =
      (if \<not> chartJsAvailable cm \<or> chart cm = None then showFallback vi ve cm
       else if update_throws then showFallback vi ve (cm\<lparr>chart := Some [vi, ve, vs]\<rparr>)
       else cm\<lparr>chart := Some [vi, ve, vs]\<rparr>)"
    unfolding updateChart_def vi_def ve_def vs_def Let_def by (rule refl)
  have r1: "chartJsAvailable cm \<and> chart cm \<noteq> None \<longrightarrow>
      chart (updateChart update_throws income expenses savings cm) = Some [vi, ve, vs]"
    unfolding u by (auto simp: showFallback_def)
  have r2: "\<not> chartJsAvailable cm \<or> chart cm = None \<or> update_throws \<longrightarrow>
      fallback (updateChart update_throws income expenses savings cm) = Some (vi, ve)"
    unfolding u by (auto simp: showFallback_def)
  have r3: "\<not> chartJsAvailable cm \<or> chart cm = None \<longrightarrow>
      chart (updateChart update_throws income expenses savings cm) = chart cm"
    unfolding u by (auto simp: showFallback_def)
  show ?thesis
    by (rule exI [of _ vi], rule exI [of _ ve], rule exI [of _ vs])
      (intro conjI i1 i2 e1 e2 s1 s2 r1 r2 r3)
qed

theorem updateChart_rendered_values_witness:
  "chart (updateChart False (Number (Fin (- 5))) (Number PosInf) (Number (Fin (- 7)))
           \<lparr>chart = Some [], chartJsAvailable = True, fallback = None\<rparr>)
   = Some [Fin 0, PosInf, Fin (- 7)]"
  using updateChart_rendered_values [of "Number (Fin (- 5))" "Number PosInf" "Number (Fin (- 7))"
      "\<lparr>chart = Some [], chartJsAvailable = True, fallback = None\<rparr>" False]
  by simp

subsection \<open>The handlers of the controller\<close>

text \<open>\<open>refreshUI\<close> only reads the DataManager and calls the rendering modules.\<close>

lemma calls_refreshUI: "\<exists>cs. calls (refreshUI a) = calls a @ cs
    \<and> (\<forall>y m v. SetBudgetLimit y m v \<notin> set cs) \<and> (\<forall>t. AddTransaction t \<notin> set cs)
    \<and> (\<forall>y m. SetSelectedMonth y m \<notin> set cs)"
  by (simp add: refreshUI_def log_def Let_def)

lemma dm_refreshUI: "dm (refreshUI a) = dm a"
  by (simp add: refreshUI_def log_def Let_def)

lemma new_calls_append: "calls a' = calls a @ cs \<Longrightarrow> new_calls a a' = cs"
  by (simp add: new_calls_def)

text \<open>
  The text \<open>Infinity\<close> in the budget input reaches \<open>handleBudgetLimitChange\<close> as the
  number \<open>+Infinity\<close>.
\<close>

lemma budget_listener_Infinity:
  "budget_listener (js ''Infinity'') a = handleBudgetLimitChange PosInf a"
  by (simp add: budget_listener_def parseFloat_def js_def isWhiteSpace_def)

text \<open>
  \<open>+Infinity\<close> is neither \<open>NaN\<close> nor at most 0, so it is passed to \<open>setBudgetLimit\<close>,
  and it is not a finite number.
\<close>

theorem handleBudgetLimitChange_infinite_counterexample:
  "\<not> isFinite PosInf
   \<and> SetBudgetLimit (Fin 2025) (Fin 1) PosInf
       \<in> set (calls (handleBudgetLimitChange PosInf (fresh_app (Fin 2025) (Fin 1))))"
  by (simp add: handleBudgetLimitChange_def fresh_app_def log_def getSelectedMonth_def
      refreshUI_def Let_def)

text \<open>
  C7 (amended): when \<open>handleBudgetLimitChange\<close> is called with a limit that is \<open>NaN\<close> or
  at most 0, the change is rejected: \<open>setBudgetLimit\<close> is not invoked (the only call made
  shows the current limit again) and the DataManager's state, so the stored budget limit
  of every month, is unchanged. Whatever the limit, the only value the handler passes to
  \<open>setBudgetLimit\<close> is the limit itself, and then it is a strictly positive number:
  a positive real or \<open>+Infinity\<close>.
\<close>

theorem handleBudgetLimitChange_rejects:
  "(isNaN limit \<or> js_le limit (Fin 0) \<longrightarrow>
      dm (handleBudgetLimitChange limit a) = dm a
      \<and> new_calls a (handleBudgetLimitChange limit a)
          = [UpdateBudgetLimitDisplay
               (getBudgetLimit (dm a) (year (selectedMonth (dm a))) (month (selectedMonth (dm a))))])
   \<and> (\<forall>y m v. SetBudgetLimit y m v \<in> set (new_calls a (handleBudgetLimitChange limit a)) \<longrightarrow>
          v = limit \<and> ((\<exists>r>0. v = Fin r) \<or> v = PosInf))"
proof (cases "isNaN limit \<or> js_le limit (Fin 0)")
  case True
  then have c: "calls (handleBudgetLimitChange limit a) = calls a @ [UpdateBudgetLimitDisplay
      (getBudgetLimit (dm a) (year (selectedMonth (dm a))) (month (selectedMonth (dm a))))]"
    by (simp add: handleBudgetLimitChange_def log_def getSelectedMonth_def Let_def)
  from True have d: "dm (handleBudgetLimitChange limit a) = dm a"
    by (simp add: handleBudgetLimitChange_def log_def Let_def)
  from True c d show ?thesis
    by (simp add: new_calls_append [OF c])
next
  case False
  define a1 where "a1 = log [SetBudgetLimit (year (selectedMonth (dm a))) (month (selectedMonth (dm a))) limit]
      (a\<lparr>dm := setBudgetLimit (year (selectedMonth (dm a))) (month (selectedMonth (dm a))) limit (dm a)\<rparr>)"
  from False have h: "handleBudgetLimitChange limit a = refreshUI a1"
    by (simp add: handleBudgetLimitChange_def a1_def getSelectedMonth_def Let_def)
  obtain cs where cs: "calls (refreshUI a1) = calls a1 @ cs" "\<forall>y m v. SetBudgetLimit y m v \<notin> set cs"
    using calls_refreshUI [of a1] by blast
  have "calls a1 = calls a @ [SetBudgetLimit (year (selectedMonth (dm a))) (month (selectedMonth (dm a))) limit]"
    by (simp add: a1_def log_def)
  with cs h have n: "new_calls a (handleBudgetLimitChange limit a)
      = SetBudgetLimit (year (selectedMonth (dm a))) (month (selectedMonth (dm a))) limit # cs"
    by (simp add: new_calls_def)
  from False have "(\<exists>r>0. limit = Fin r) \<or> limit = PosInf"
    using js_positive by blast
  with False n cs(2) show ?thesis by auto
qed

theorem handleBudgetLimitChange_rejects_witness:
  "dm (handleBudgetLimitChange (Fin (- 3)) (fresh_app (Fin 2025) (Fin 1))) = dm (fresh_app (Fin 2025) (Fin 1))
   \<and> new_calls (fresh_app (Fin 2025) (Fin 1)) (handleBudgetLimitChange (Fin (- 3)) (fresh_app (Fin 2025) (Fin 1)))
      = [UpdateBudgetLimitDisplay (Fin 0)]"
  using handleBudgetLimitChange_rejects [of "Fin (- 3)" "fresh_app (Fin 2025) (Fin 1)"]
  by (simp add: fresh_app_def getBudgetLimit_def)

text \<open>
  C8: when \<open>validateTransaction\<close> reports the form input invalid,
  \<open>handleAddTransaction\<close> does not proceed: the DataManager's state is unchanged,
  \<open>addTransaction\<close> is not among the calls made, and after resetting the error display
  the handler calls \<open>showValidationError\<close> once for every error record of the
  \<open>errors\<close> list, in its order.
\<close>

theorem handleAddTransaction_invalid:
  assumes "\<not> isValid (validateTransaction (transactionData f))"
  shows "dm (handleAddTransaction f new_id a) = dm a
    \<and> new_calls a (handleAddTransaction f new_id a)
        = [PreventDefault, ClearValidationErrors]
          @ map (\<lambda>e. ShowValidationError (field e) (message e))
                (errors (validateTransaction (transactionData f)))
    \<and> (\<forall>t. AddTransaction t \<notin> set (new_calls a (handleAddTransaction f new_id a)))"
proof -
  let ?shown = "map (\<lambda>e. ShowValidationError (field e) (message e))
                    (errors (validateTransaction (transactionData f)))"
  from assms have h: "handleAddTransaction f new_id a
      = log ?shown (log [PreventDefault, ClearValidationErrors] a)"
    by (simp add: handleAddTransaction_def Let_def)
  have c: "calls (handleAddTransaction f new_id a)
      = calls a @ ([PreventDefault, ClearValidationErrors] @ ?shown)"
    by (simp add: h log_def)
  have d: "dm (handleAddTransaction f new_id a) = dm a"
    by (simp add: h log_def)
  have n: "new_calls a (handleAddTransaction f new_id a)
      = [PreventDefault, ClearValidationErrors] @ ?shown"
    by (rule new_calls_append [OF c])
  have "\<forall>t. AddTransaction t \<notin> set ([PreventDefault, ClearValidationErrors] @ ?shown)"
    by auto
  with d n show ?thesis by simp
qed

theorem handleAddTransaction_invalid_witness:
  "new_calls (fresh_app (Fin 2025) (Fin 1))
     (handleAddTransaction
        \<lparr>dateInput = Some [], typeInput = Some (js ''income''), descriptionInput = Some [],
         amountInput = Some (js ''-5'')\<rparr> (js ''id1'') (fresh_app (Fin 2025) (Fin 1)))
   = [PreventDefault, ClearValidationErrors, ShowValidationError date_field required,
      ShowValidationError description_field required,
      ShowValidationError amount_field not_positive]
   \<and> transactions (dm (handleAddTransaction
        \<lparr>dateInput = Some [], typeInput = Some (js ''income''), descriptionInput = Some [],
         amountInput = Some (js ''-5'')\<rparr> (js ''id1'') (fresh_app (Fin 2025) (Fin 1)))) = []"
proof -
  have v: "validateTransaction (transactionData
        \<lparr>dateInput = Some [], typeInput = Some (js ''income''), descriptionInput = Some [],
         amountInput = Some (js ''-5'')\<rparr>)
      = \<lparr>isValid = False,
         errors = [\<lparr>field = date_field, message = required\<rparr>,
                   \<lparr>field = description_field, message = required\<rparr>,
                   \<lparr>field = amount_field, message = not_positive\<rparr>]\<rparr>"
    by (simp add: transactionData_def value_or_empty_def validateTransaction_def
        validate_date_def validate_type_def validate_description_def validate_amount_def
        trim_def parseFloat_def js_def isWhiteSpace_def isDigit_def digits_value_def
        exponent_part_def scale10_def Let_def)
  then have "\<not> isValid (validateTransaction (transactionData
        \<lparr>dateInput = Some [], typeInput = Some (js ''income''), descriptionInput = Some [],
         amountInput = Some (js ''-5'')\<rparr>))"
    by simp
  from handleAddTransaction_invalid [OF this, of "js ''id1''" "fresh_app (Fin 2025) (Fin 1)"]
  show ?thesis
    by (simp add: v fresh_app_def)
qed

subsection \<open>Parsing the month selector's value\<close>

lemma parseMonthValue_Some:
  "parseMonthValue v = Some r \<longleftrightarrow>
     v \<noteq> [] \<and> (\<exists>ys ms k. split v 45 = [ys, ms] \<and> year r = parseInt ys \<and> month r = parseInt ms
        \<and> \<not> isNaN (parseInt ys) \<and> parseInt ms = Fin (of_int k) \<and> 1 \<le> k \<and> k \<le> 12)"
proof (cases "v \<noteq> [] \<and> length (split v 45) = 2")
  case False
  then show ?thesis by (auto simp: parseMonthValue_def Let_def)
next
  case True
  then obtain ys ms where p: "split v 45 = [ys, ms]" by (auto simp: length_two)
  show ?thesis
  proof (cases "isNaN (parseInt ys) \<or> isNaN (parseInt ms) \<or> js_lt (parseInt ms) (Fin 1)
      \<or> js_gt (parseInt ms) (Fin 12)")
    case bad: True
    then have "parseMonthValue v = None"
      using True p by (simp add: parseMonthValue_def Let_def)
    moreover have "\<not> (\<not> isNaN (parseInt ys) \<and> (\<exists>k. parseInt ms = Fin (of_int k) \<and> 1 \<le> k \<and> k \<le> 12))"
      using bad by (auto simp: js_gt_def)
    ultimately show ?thesis using p by auto
  next
    case good: False
    then have v: "parseMonthValue v = Some \<lparr>year = parseInt ys, month = parseInt ms\<rparr>"
      using True p by (simp add: parseMonthValue_def Let_def)
    from good parseInt_in_range [of ms] obtain k
      where "parseInt ms = Fin (of_int k)" "1 \<le> k" "k \<le> 12" by blast
    with good v p True show ?thesis by (cases r) auto
  qed
qed

text \<open>
  A year of 310 digits is beyond the range of doubles: \<open>parseInt\<close> reads it as
  \<open>Infinity\<close>, which is not \<open>NaN\<close>, and \<open>parseMonthValue\<close> returns it as the year.
\<close>

theorem parseMonthValue_infinite_year_counterexample:
  "parseMonthValue (js ''1000000000000000000000000000000000000000000000000000000000000000000000000000000000000000000000000000000000000000000000000000000000000000000000000000000000000000000000000000000000000000000000000000000000000000000000000000000000000000000000000000000000000000000000000000000000000000000000000000000000000000000000-05'') = Some \<lparr>year = PosInf, month = Fin 5\<rparr>
   \<and> parseInt (js ''1000000000000000000000000000000000000000000000000000000000000000000000000000000000000000000000000000000000000000000000000000000000000000000000000000000000000000000000000000000000000000000000000000000000000000000000000000000000000000000000000000000000000000000000000000000000000000000000000000000000000000000000'') = PosInf \<and> \<not> isFinite PosInf"
  by (simp add: parseMonthValue_def split_def parseInt_def js_def isWhiteSpace_def isDigit_def
      digits_value_def js_gt_def Let_def to_double_overflow)

text \<open>
  C9 (amended): for every string, \<open>parseMonthValue\<close> returns \<open>null\<close> exactly when the
  string is not a non-empty string of exactly two parts separated by \<open>-\<close> of which
  \<open>parseInt\<close> reads the first as a number (not \<open>NaN\<close>) and the second as an integer in
  1..12; otherwise it returns as year and month exactly the two numbers that \<open>parseInt\<close>
  gave: the month an integer in 1..12, the year an integer or, for digits beyond the
  range of doubles, an infinity. So a month that the change listener of the month
  selector passes to \<open>setSelectedMonth\<close> is an integer in 1..12.
\<close>

theorem parseMonthValue_null_iff_parsed:
  "(parseMonthValue v = None \<longleftrightarrow>
      \<not> (v \<noteq> [] \<and> (\<exists>ys ms k. split v 45 = [ys, ms] \<and> \<not> isNaN (parseInt ys)
            \<and> parseInt ms = Fin (of_int k) \<and> 1 \<le> k \<and> k \<le> 12)))
   \<and> (\<forall>r. parseMonthValue v = Some r \<longrightarrow>
         (\<exists>ys ms. split v 45 = [ys, ms] \<and> year r = parseInt ys \<and> month r = parseInt ms
            \<and> (year r = PosInf \<or> year r = NegInf \<or> (\<exists>y. year r = Fin (of_int y)))))
   \<and> (\<forall>y m. SetSelectedMonth y m \<in> set (new_calls a (month_listener v a)) \<longrightarrow>
         (\<exists>k. m = Fin (of_int k) \<and> 1 \<le> k \<and> k \<le> 12))"
proof (intro conjI allI impI)
  show "parseMonthValue v = None \<longleftrightarrow>
      \<not> (v \<noteq> [] \<and> (\<exists>ys ms k. split v 45 = [ys, ms] \<and> \<not> isNaN (parseInt ys)
            \<and> parseInt ms = Fin (of_int k) \<and> 1 \<le> k \<and> k \<le> 12))" (is "?l \<longleftrightarrow> \<not> ?r")
  proof
    assume ?l
    show "\<not> ?r"
    proof
      assume ?r
      then obtain ys ms k where "v \<noteq> []" "split v 45 = [ys, ms]" "\<not> isNaN (parseInt ys)"
        "parseInt ms = Fin (of_int k)" "1 \<le> k" "k \<le> 12" by blast
      then have "parseMonthValue v = Some \<lparr>year = parseInt ys, month = parseInt ms\<rparr>"
        by (subst parseMonthValue_Some) auto
      with \<open>?l\<close> show False by simp
    qed
  next
    assume n: "\<not> ?r"
    show ?l
    proof (rule ccontr)
      assume "parseMonthValue v \<noteq> None"
      then obtain r where "parseMonthValue v = Some r" by auto
      then have ?r unfolding parseMonthValue_Some by blast
      with n show False by blast
    qed
  qed
next
  fix r assume "parseMonthValue v = Some r"
  then obtain ys ms where p: "split v 45 = [ys, ms]" "year r = parseInt ys"
      "month r = parseInt ms" "\<not> isNaN (parseInt ys)"
    by (auto simp: parseMonthValue_Some)
  from p(4) parseInt_cases [of ys]
  have "parseInt ys = PosInf \<or> parseInt ys = NegInf \<or> (\<exists>y. parseInt ys = Fin (of_int y))"
    by auto
  with p show "\<exists>ys ms. split v 45 = [ys, ms] \<and> year r = parseInt ys \<and> month r = parseInt ms
      \<and> (year r = PosInf \<or> year r = NegInf \<or> (\<exists>y. year r = Fin (of_int y)))"
    by auto
next
  fix y m assume s: "SetSelectedMonth y m \<in> set (new_calls a (month_listener v a))"
  show "\<exists>k. m = Fin (of_int k) \<and> 1 \<le> k \<and> k \<le> 12"
  proof (cases "parseMonthValue v")
    case None
    with s show ?thesis by (simp add: month_listener_def new_calls_def)
  next
    case (Some r)
    define a1 where "a1 = log [SetSelectedMonth (year r) (month r)]
        (a\<lparr>dm := setSelectedMonth (year r) (month r) (dm a)\<rparr>)"
    obtain cs where cs: "calls (refreshUI a1) = calls a1 @ cs"
        "\<forall>y m. SetSelectedMonth y m \<notin> set cs"
      using calls_refreshUI [of a1] by blast
    have "calls a1 = calls a @ [SetSelectedMonth (year r) (month r)]"
      by (simp add: a1_def log_def)
    with cs Some have "new_calls a (month_listener v a) = SetSelectedMonth (year r) (month r) # cs"
      by (simp add: month_listener_def handleMonthChange_def a1_def new_calls_def)
    with s cs(2) have "m = month r" by auto
    with Some show ?thesis by (auto simp: parseMonthValue_Some)
  qed
qed

theorem parseMonthValue_null_iff_parsed_witness:
  "parseMonthValue (js ''2025-07'') = Some \<lparr>year = Fin 2025, month = Fin 7\<rparr>
   \<and> parseMonthValue (js ''2025-13'') = None
   \<and> parseMonthValue (js ''2025-07-01'') = None
   \<and> SetSelectedMonth (Fin 2025) (Fin 7)
       \<in> set (new_calls (fresh_app (Fin 2025) (Fin 1))
                 (month_listener (js ''2025-07'') (fresh_app (Fin 2025) (Fin 1))))"
  using parseMonthValue_null_iff_parsed [of "js ''2025-07''" "fresh_app (Fin 2025) (Fin 1)"]
  by (simp add: parseMonthValue_def split_def parseInt_def js_def isWhiteSpace_def isDigit_def
      digits_value_def js_gt_def Let_def month_listener_def handleMonthChange_def new_calls_def
      fresh_app_def log_def refreshUI_def)

end
